theory Spec2Isabelle
  imports Main
begin

section \<open>Team registration of Alhuda SPARK: a model of the controllers\<close>

text \<open>
  The development embeds the team-registration request handler in two variants that the
  repository holds side by side: the controller that uploads identity photos to Cloudinary
  (\<^verbatim>\<open>server/controllers/teamRegistrationController.js\<close>, the one wired to the route
  \<^verbatim>\<open>/api/team-registration\<close>) and the earlier controller that keeps the photos on the local
  disk through multer's disk storage. The Mongoose model \<^verbatim>\<open>models/Team\<close> and the module
  \<^verbatim>\<open>cloudinaryController\<close> are collaborators whose code the controllers only call; they
  appear here as an environment record and as definitions taken from the specification.
\<close>

subsection \<open>Calendar dates and the age calculator\<close>

text \<open>
  A calendar date as JavaScript's \<^verbatim>\<open>Date\<close> shows it through \<^verbatim>\<open>getFullYear\<close>, the month
  (counted from 1 here) and the day of the month.
\<close>

record date =
  year :: int
  month :: nat
  day :: nat

definition leap_year :: "int \<Rightarrow> bool" where
  "leap_year y \<longleftrightarrow> (y mod 4 = 0 \<and> y mod 100 \<noteq> 0) \<or> y mod 400 = 0"

definition days_in_month :: "int \<Rightarrow> nat \<Rightarrow> nat" where
  "days_in_month y m =
     (if m = 2 then (if leap_year y then 29 else 28)
      else if m = 4 \<or> m = 6 \<or> m = 9 \<or> m = 11 then 30
      else 31)"

definition valid_date :: "date \<Rightarrow> bool" where
  "valid_date d \<longleftrightarrow>
     1 \<le> month d \<and> month d \<le> 12 \<and> 1 \<le> day d \<and> day d \<le> days_in_month (year d) (month d)"

text \<open>The day after a date of the calendar.\<close>

definition next_day :: "date \<Rightarrow> date" where
  "next_day d =
     (if day d < days_in_month (year d) (month d) then d\<lparr>day := day d + 1\<rparr>
      else if month d < 12 then d\<lparr>month := month d + 1, day := 1\<rparr>
      else \<lparr>year = year d + 1, month = 1, day = 1\<rparr>)"

text \<open>The same month and day, \<open>n\<close> years later (or earlier, for a negative \<open>n\<close>).\<close>

definition add_years :: "date \<Rightarrow> int \<Rightarrow> date" where
  "add_years d n = d\<lparr>year := year d + n\<rparr>"

text \<open>The order of the calendar, and the order of month and day alone.\<close>

definition date_le :: "date \<Rightarrow> date \<Rightarrow> bool" where
  "date_le a b \<longleftrightarrow>
     year a < year b \<or>
     (year a = year b \<and> (month a < month b \<or> (month a = month b \<and> day a \<le> day b)))"

definition month_day_precedes :: "date \<Rightarrow> date \<Rightarrow> bool" where
  "month_day_precedes a b \<longleftrightarrow> month a < month b \<or> (month a = month b \<and> day a < day b)"

text \<open>
  Modelled from the spec: the method \<^verbatim>\<open>calculatePlayerAges\<close> of the Team model is not among
  the sources at hand. Section 4.1 of the specification gives its contract: the whole
  elapsed years between two calendar dates, one less if the month and day of \<open>asOf\<close> precede
  the month and day of the date of birth.
\<close>

definition age :: "date \<Rightarrow> date \<Rightarrow> int" where
  "age dateOfBirth asOf =
     (let years = year asOf - year dateOfBirth
      in if month_day_precedes asOf dateOfBirth then years - 1 else years)"

subsection \<open>Strings as JavaScript handles them\<close>

text \<open>
  The controllers test form fields for truthiness (\<^verbatim>\<open>!teamName\<close>): a field that is absent
  and a field that is the empty string are both falsy. A text field is a \<^typ>\<open>string\<close> here
  and the empty string stands for both.
\<close>

definition falsy :: "string \<Rightarrow> bool" where
  "falsy s \<longleftrightarrow> s = []"

text \<open>\<^verbatim>\<open>s || d\<close> on strings: the default replaces a falsy value.\<close>

definition or_default :: "string \<Rightarrow> string \<Rightarrow> string" where
  "or_default s d = (if falsy s then d else s)"

definition or_null :: "string \<Rightarrow> string option" where
  "or_null s = (if falsy s then None else Some s)"

text \<open>
  A \<^typ>\<open>char\<close> is a byte, and a \<^typ>\<open>string\<close> of the model stands for a text of ASCII
  characters, one byte each. On such a text \<^verbatim>\<open>toLowerCase\<close> changes the letters A to Z
  only, \<^verbatim>\<open>trim\<close> strips the blank, the tab and the line separators, and the regular
  expression of the folder names replaces one character by one underscore, as below. A
  text with characters beyond ASCII (a capital letter with an accent, a no-break space) is
  outside this model: JavaScript lowercases, trims and replaces it by UTF-16 units.
\<close>

definition toLowerCase_char :: "char \<Rightarrow> char" where
  "toLowerCase_char c =
     (let n = (of_char c :: nat) in if 65 \<le> n \<and> n \<le> 90 then char_of (n + 32) else c)"

definition toLowerCase :: "string \<Rightarrow> string" where
  "toLowerCase s = map toLowerCase_char s"

definition alphanumeric :: "char \<Rightarrow> bool" where
  "alphanumeric c =
     (let n = (of_char c :: nat)
      in (97 \<le> n \<and> n \<le> 122) \<or> (65 \<le> n \<and> n \<le> 90) \<or> (48 \<le> n \<and> n \<le> 57))"

text \<open>\<^verbatim>\<open>s.replace(/[^a-zA-Z0-9]/g, '_')\<close>.\<close>

definition replace_non_alphanumeric :: "string \<Rightarrow> string" where
  "replace_non_alphanumeric s = map (\<lambda>c. if alphanumeric c then c else CHR ''_'') s"

definition whitespace :: "char \<Rightarrow> bool" where
  "whitespace c = (let n = (of_char c :: nat) in n = 32 \<or> (9 \<le> n \<and> n \<le> 13))"

definition trim :: "string \<Rightarrow> string" where
  "trim s = rev (dropWhile whitespace (rev (dropWhile whitespace s)))"

text \<open>The decimal numeral that a template literal prints for an index.\<close>

definition digit :: "nat \<Rightarrow> char" where
  "digit d = char_of (48 + d)"

fun decimal :: "nat \<Rightarrow> string" where
  "decimal n = (if 10 \<le> n then decimal (n div 10) @ [digit (n mod 10)] else [digit n])"

declare decimal.simps [simp del]

subsection \<open>The request, the Team document and the collaborators\<close>

text \<open>
  One field group \<^verbatim>\<open>players[i]\<close> of the form. The date input sends a date string;
  \<open>None\<close> is the absent or empty field, \<open>Some d\<close> a string that \<^verbatim>\<open>new Date\<close> reads as \<open>d\<close>.
\<close>

record raw_player =
  raw_playerName :: string
  raw_dateOfBirth :: "date option"

record emergency =
  ec_name :: string
  ec_phone :: string
  ec_relationship :: string

text \<open>
  \<^verbatim>\<open>req.body\<close>. The field \<open>b_players\<close> is \<^verbatim>\<open>body.players\<close>: \<open>None\<close> when the form sent no
  player field at all (the property is undefined), otherwise the entries by index, an
  index without a field group being \<open>None\<close>.
\<close>

record body =
  b_teamName :: string
  b_organization :: string
  b_city :: string
  b_tier :: string
  b_gender :: string
  b_coachName :: string
  b_coachEmail :: string
  b_coachPhone :: string
  b_emergencyContact :: "emergency option"
  b_paymentMethod :: string
  b_specialRequirements :: string
  b_comments :: string
  b_players :: "raw_player option list option"

text \<open>
  One entry of \<^verbatim>\<open>req.files\<close>: \<open>buffer\<close> is the content held in memory (Cloudinary
  variant), \<open>path\<close> the place where multer's disk storage wrote it (disk variant).
\<close>

record uploaded_file =
  fieldname :: string
  originalname :: string
  buffer :: string
  path :: string

record player =
  playerName :: string
  dateOfBirth :: date
  idPhotoUrl :: "string option"
  idPhotoPublicId :: "string option"
  idPhotoOriginalName :: "string option"
  ageAtRegistration :: int

record team =
  teamId :: string
  teamName :: string
  organization :: string
  city :: string
  tier :: string
  gender :: string
  coachName :: string
  coachEmail :: string
  coachPhone :: string
  players :: "player list"
  emergencyContact :: emergency
  registrationFee :: nat
  paymentMethod :: string
  paymentStatus :: string
  specialRequirements :: string
  comments :: string
  registrationStatus :: string

record cloudinary_result =
  secure_url :: string
  public_id :: string

text \<open>
  Everything the handler asks of its surroundings. The static tables of the Team model
  (\<open>getRegistrationFees\<close>, \<open>ageRanges\<close>) and its id generator are parameters, since the model
  is not among the sources; \<open>now\<close> is the date of the submission, against which the
  ages are computed. An upload answers with a result or rejects (\<open>None\<close>); a deletion,
  an unlink, a rename, a save and a mail each resolve (\<open>True\<close>) or reject.
\<close>

record env =
  generateTeamId :: string
  getRegistrationFees :: "string \<Rightarrow> nat option"
  ageRanges :: "string \<Rightarrow> (int \<times> int) option"
  now :: date
  uploadImageToCloudinary :: "string \<Rightarrow> string \<Rightarrow> cloudinary_result option"
  deleteImageFromCloudinary :: "string \<Rightarrow> bool"
  unlink :: "string \<Rightarrow> bool"
  mkdir :: "string \<Rightarrow> bool"
  rename :: "string \<Rightarrow> string \<Rightarrow> bool"
  findOneResolves :: bool
  saveResolves :: "team \<Rightarrow> bool"
  sendMail :: "string \<Rightarrow> bool"
  cwd :: string
  MAILING_ADDRESS :: string
  ZELLE_EMAIL :: string
  VENMO_USERNAME :: string
  ADMIN_EMAILS :: string
  toLocaleString :: "nat \<Rightarrow> string"

text \<open>
  What the handler can change: the public ids stored in Cloudinary, the paths present on
  the local disk, the Team collection and the mails handed to the transporter (by
  recipient).
\<close>

record world =
  cloud :: "string set"
  disk :: "string set"
  teams :: "team list"
  outbox :: "string list"

text \<open>
  The failures a submission can end with, under the names of the specification. The
  indices count from 0 (the messages of the code print \<open>index + 1\<close>). \<open>ProcessingError\<close> is
  the answer \<^verbatim>\<open>Error processing player data\<close> of the roster builder's catch block;
  \<open>PersistenceError\<close> is the answer 500 of the handler's catch block. No path of either
  controller produces \<open>InvalidTier\<close>.
\<close>

datatype error =
    MissingRequiredField
  | MissingPlayerField nat
  | MissingIdentityPhoto nat
  | UploadFailure nat
  | RosterSizeViolation nat
  | ProcessingError
  | DuplicateRegistration
  | InvalidTier
  | AgeEligibilityViolation
  | PersistenceError

record instructions =
  title :: string
  text_of :: string
  details :: string

type_synonym response = "error + (string \<times> instructions option)"

subsection \<open>Operations of the Team model\<close>

text \<open>\<^verbatim>\<open>fees[tier] || 350\<close>: a tier without a fee, or with the fee 0, gets 350.\<close>

definition registrationFeeFor :: "env \<Rightarrow> string \<Rightarrow> nat" where
  "registrationFeeFor e t =
     (case getRegistrationFees e t of
        None \<Rightarrow> 350
      | Some fee \<Rightarrow> if fee = 0 then 350 else fee)"

text \<open>
  Modelled from the spec: \<^verbatim>\<open>calculatePlayerAges\<close> of the Team model, which is not among the
  sources, stores for every player the age at the reference date (step 5 of the workflow).
\<close>

definition calculatePlayerAges :: "env \<Rightarrow> team \<Rightarrow> team" where
  "calculatePlayerAges e t =
     t\<lparr>players := map (\<lambda>p. p\<lparr>ageAtRegistration := age (dateOfBirth p) (now e)\<rparr>) (players t)\<rparr>"

text \<open>
  Modelled from the spec: \<^verbatim>\<open>validatePlayerAgesForTier\<close> of the Team model, which is not
  among the sources, accepts a team when every stored age lies in the range of the team's
  tier. The age bounds of an unknown tier are never defaulted (section 4.2): the check
  fails.
\<close>

definition validatePlayerAgesForTier :: "env \<Rightarrow> team \<Rightarrow> bool" where
  "validatePlayerAgesForTier e t =
     (case ageRanges e (tier t) of
        None \<Rightarrow> False
      | Some (minAge, maxAge) \<Rightarrow>
          list_all (\<lambda>p. minAge \<le> ageAtRegistration p \<and> ageAtRegistration p \<le> maxAge) (players t))"

text \<open>
  \<^verbatim>\<open>Team.findOne\<close> with the filter of the duplicate check: the same coach email (in lower
  case) and team name, among the teams whose registration is pending, approved or
  waitlisted.
\<close>

definition findExistingTeam :: "body \<Rightarrow> world \<Rightarrow> team option" where
  "findExistingTeam b w =
     find (\<lambda>t. coachEmail t = toLowerCase (b_coachEmail b) \<and> teamName t = b_teamName b \<and>
               registrationStatus t \<in> set [''pending'', ''approved'', ''waitlisted''])
          (teams w)"

text \<open>
  \<^verbatim>\<open>new Team({...})\<close> as both controllers write it. The registration status is the
  schema's default, which the specification gives as pending.
\<close>

definition newTeam :: "env \<Rightarrow> body \<Rightarrow> emergency \<Rightarrow> string \<Rightarrow> player list \<Rightarrow> team" where
  "newTeam e b ec tid ps =
     \<lparr>teamId = tid,
      teamName = b_teamName b,
      organization = b_organization b,
      city = b_city b,
      tier = b_tier b,
      gender = b_gender b,
      coachName = b_coachName b,
      coachEmail = toLowerCase (b_coachEmail b),
      coachPhone = b_coachPhone b,
      players = ps,
      emergencyContact = ec,
      registrationFee = registrationFeeFor e (b_tier b),
      paymentMethod = b_paymentMethod b,
      paymentStatus = ''pending'',
      specialRequirements = b_specialRequirements b,
      comments = b_comments b,
      registrationStatus = ''pending''\<rparr>"

text \<open>\<^verbatim>\<open>team.save()\<close> of a new document, once it resolves.\<close>

definition save :: "team \<Rightarrow> world \<Rightarrow> world" where
  "save t w = w\<lparr>teams := teams w @ [t]\<rparr>"

subsection \<open>Parts that both controllers share\<close>

text \<open>The two checks at the head of \<^verbatim>\<open>registerTeam\<close>.\<close>

definition missingRequiredFields :: "body \<Rightarrow> bool" where
  "missingRequiredFields b \<longleftrightarrow>
     falsy (b_teamName b) \<or> falsy (b_organization b) \<or> falsy (b_city b) \<or>
     falsy (b_tier b) \<or> falsy (b_gender b) \<or> falsy (b_coachName b) \<or>
     falsy (b_coachEmail b) \<or> falsy (b_coachPhone b) \<or> falsy (b_paymentMethod b)"

definition missingEmergencyContact :: "body \<Rightarrow> bool" where
  "missingEmergencyContact b \<longleftrightarrow>
     (case b_emergencyContact b of
        None \<Rightarrow> True
      | Some ec \<Rightarrow> falsy (ec_name ec) \<or> falsy (ec_phone ec) \<or> falsy (ec_relationship ec))"

text \<open>The field name under which the form sends the identity photo of a player.\<close>

definition idPhotoField :: "nat \<Rightarrow> string" where
  "idPhotoField playerIndex = ''players['' @ decimal playerIndex @ ''][idPhoto]''"

definition findPlayerFile :: "uploaded_file list \<Rightarrow> nat \<Rightarrow> uploaded_file option" where
  "findPlayerFile playerFiles playerIndex =
     find (\<lambda>file. fieldname file = idPhotoField playerIndex) playerFiles"

text \<open>
  \<^verbatim>\<open>getPaymentInstructions\<close>. The lines of the template literals are indented by sixteen
  blanks and the closing backquote by twelve. The lookup \<^verbatim>\<open>instructions[method] || null\<close>
  is taken over the three keys that the object literal defines. A method that names a
  property which every object inherits (\<^verbatim>\<open>constructor\<close>, \<^verbatim>\<open>toString\<close>) reads that property
  in JavaScript, a value that is no instruction payload; the model answers \<open>None\<close> for every
  method other than the three.
\<close>

definition template_line :: string where
  "template_line = CHR 0x0A # replicate 16 (CHR '' '')"

definition template_end :: string where
  "template_end = CHR 0x0A # replicate 12 (CHR '' '')"

definition amount :: "env \<Rightarrow> team \<Rightarrow> string" where
  "amount e t = ''$'' @ toLocaleString e (registrationFee t)"

definition checkInstructions :: "env \<Rightarrow> team \<Rightarrow> instructions" where
  \<open>checkInstructions e t =
     \<lparr>title = ''Payment by Check'',
      text_of = ''Please make your check payable to "Alhuda SPARK" and mail it to:'',
      details =
        template_line @ ''<strong>Alhuda SPARK</strong><br>'' @
        template_line @
          or_default (MAILING_ADDRESS e) ''123 Main Street<br>Indianapolis, IN 46201'' @
          ''<br><br>'' @
        template_line @ ''<strong>Amount:</strong> '' @ amount e t @ ''<br>'' @
        template_line @ ''<strong>Memo:</strong> Team Registration - '' @ teamName t @ ''<br>'' @
        template_line @ ''<strong>Reference:</strong> '' @ teamId t @
        template_end\<rparr>\<close>

definition zelleInstructions :: "env \<Rightarrow> team \<Rightarrow> instructions" where
  "zelleInstructions e t =
     \<lparr>title = ''Payment by Zelle'',
      text_of = ''Please send your Zelle payment using the following information:'',
      details =
        template_line @ ''<strong>Recipient Email:</strong> '' @
          or_default (ZELLE_EMAIL e) ''finance@alhudaspark.org'' @ ''<br>'' @
        template_line @ ''<strong>Recipient Name:</strong> Alhuda SPARK<br>'' @
        template_line @ ''<strong>Amount:</strong> '' @ amount e t @ ''<br>'' @
        template_line @ ''<strong>Memo:</strong> '' @ teamId t @
        template_end\<rparr>"

definition venmoInstructions :: "env \<Rightarrow> team \<Rightarrow> instructions" where
  "venmoInstructions e t =
     \<lparr>title = ''Payment by Venmo'',
      text_of = ''Please send your Venmo payment to:'',
      details =
        template_line @ ''<strong>Venmo Username:</strong> '' @
          or_default (VENMO_USERNAME e) ''@AlhudaSPARK'' @ ''<br>'' @
        template_line @ ''<strong>Amount:</strong> '' @ amount e t @ ''<br>'' @
        template_line @ ''<strong>Note:</strong> '' @ teamId t @ '' - '' @ teamName t @
        template_end\<rparr>"

definition getPaymentInstructions :: "env \<Rightarrow> team \<Rightarrow> instructions option" where
  "getPaymentInstructions e t =
     (if paymentMethod t = ''check'' then Some (checkInstructions e t)
      else if paymentMethod t = ''zelle'' then Some (zelleInstructions e t)
      else if paymentMethod t = ''venmo'' then Some (venmoInstructions e t)
      else None)"

text \<open>
  The two notifications. Each body is one \<^verbatim>\<open>try\<close> around the call of the transporter,
  with a \<^verbatim>\<open>catch\<close> that logs and does not throw: a mail that is rejected leaves no trace
  but the log.
\<close>

definition sendTeamConfirmationEmail :: "env \<Rightarrow> team \<Rightarrow> world \<Rightarrow> world" where
  "sendTeamConfirmationEmail e t w =
     (if sendMail e (coachEmail t) then w\<lparr>outbox := outbox w @ [coachEmail t]\<rparr> else w)"

definition adminRecipient :: "env \<Rightarrow> string" where
  "adminRecipient e = or_default (ADMIN_EMAILS e) ''admin@alhudaspark.org''"

definition sendAdminNotificationEmail :: "env \<Rightarrow> team \<Rightarrow> world \<Rightarrow> world" where
  "sendAdminNotificationEmail e t w =
     (if sendMail e (adminRecipient e) then w\<lparr>outbox := outbox w @ [adminRecipient e]\<rparr> else w)"

subsection \<open>The controller with Cloudinary uploads\<close>

text \<open>
  \<^verbatim>\<open>cleanupCloudinaryImages\<close>: one deletion per public id, all started together; a
  deletion that rejects is logged and the image stays.
\<close>

definition cleanupCloudinaryImages :: "env \<Rightarrow> string list \<Rightarrow> world \<Rightarrow> world" where
  "cleanupCloudinaryImages e publicIds w =
     w\<lparr>cloud := cloud w - set (filter (deleteImageFromCloudinary e) publicIds)\<rparr>"

definition playerFolder :: "string \<Rightarrow> string \<Rightarrow> nat \<Rightarrow> string" where
  "playerFolder teamFolderName pName playerIndex =
     ''alhuda_spark/'' @ teamFolderName @ ''/'' @ replace_non_alphanumeric pName @ ''_'' @
     decimal (playerIndex + 1)"

text \<open>
  The \<^verbatim>\<open>while (body.players[playerIndex])\<close> loop of \<^verbatim>\<open>processPlayersDataWithCloudinary\<close>.
  The list holds the entries from \<open>playerIndex\<close> on; the loop ends at the end of the
  entries or at the first index without a field group. \<open>acc\<close> is the array \<^verbatim>\<open>players\<close>
  built so far and \<open>uploadedImages\<close> the public ids stored so far.
\<close>

fun collectPlayersWithCloudinary ::
  "env \<Rightarrow> uploaded_file list \<Rightarrow> bool \<Rightarrow> string \<Rightarrow> raw_player option list \<Rightarrow> nat \<Rightarrow>
   player list \<Rightarrow> string list \<Rightarrow> world \<Rightarrow> (error + player list \<times> string list) \<times> world"
where
  "collectPlayersWithCloudinary e playerFiles requireIds teamFolderName [] playerIndex
     acc uploadedImages w = (Inr (acc, uploadedImages), w)"
| "collectPlayersWithCloudinary e playerFiles requireIds teamFolderName (None # rest) playerIndex
     acc uploadedImages w = (Inr (acc, uploadedImages), w)"
| "collectPlayersWithCloudinary e playerFiles requireIds teamFolderName (Some rp # rest) playerIndex
     acc uploadedImages w =
     (if falsy (raw_playerName rp) \<or> raw_dateOfBirth rp = None
      then (Inl (MissingPlayerField playerIndex), cleanupCloudinaryImages e uploadedImages w)
      else
        (case findPlayerFile playerFiles playerIndex of
           None \<Rightarrow>
             if requireIds
             then (Inl (MissingIdentityPhoto playerIndex),
                   cleanupCloudinaryImages e uploadedImages w)
             else collectPlayersWithCloudinary e playerFiles requireIds teamFolderName rest
                    (playerIndex + 1)
                    (acc @ [\<lparr>playerName = trim (raw_playerName rp),
                             dateOfBirth = the (raw_dateOfBirth rp),
                             idPhotoUrl = None,
                             idPhotoPublicId = None,
                             idPhotoOriginalName = None,
                             ageAtRegistration = 0\<rparr>])
                    uploadedImages w
         | Some playerFile \<Rightarrow>
             (case uploadImageToCloudinary e (buffer playerFile)
                     (playerFolder teamFolderName (raw_playerName rp) playerIndex) of
                None \<Rightarrow>
                  (Inl (UploadFailure playerIndex), cleanupCloudinaryImages e uploadedImages w)
              | Some cloudinaryResult \<Rightarrow>
                  collectPlayersWithCloudinary e playerFiles requireIds teamFolderName rest
                    (playerIndex + 1)
                    (acc @ [\<lparr>playerName = trim (raw_playerName rp),
                             dateOfBirth = the (raw_dateOfBirth rp),
                             idPhotoUrl = or_null (secure_url cloudinaryResult),
                             idPhotoPublicId = or_null (public_id cloudinaryResult),
                             idPhotoOriginalName = or_null (originalname playerFile),
                             ageAtRegistration = 0\<rparr>])
                    (uploadedImages @ [public_id cloudinaryResult])
                    (w\<lparr>cloud := insert (public_id cloudinaryResult) (cloud w)\<rparr>))))"

text \<open>
  \<^verbatim>\<open>processPlayersDataWithCloudinary\<close>. Reading \<^verbatim>\<open>body.players[0]\<close> of an undefined
  \<^verbatim>\<open>body.players\<close> throws, and the catch block answers after a cleanup of the (still
  empty) list of uploads.
\<close>

definition processPlayersDataWithCloudinary ::
  "env \<Rightarrow> body \<Rightarrow> uploaded_file list \<Rightarrow> string \<Rightarrow> world \<Rightarrow>
   (error + player list \<times> string list) \<times> world"
where
  "processPlayersDataWithCloudinary e b files tid w =
     (let requireIds = (b_tier b = ''high_school'');
          teamFolderName = replace_non_alphanumeric (b_teamName b) @ ''_'' @ tid
      in case b_players b of
           None \<Rightarrow> (Inl ProcessingError, cleanupCloudinaryImages e [] w)
         | Some entries \<Rightarrow>
             (case collectPlayersWithCloudinary e files requireIds teamFolderName entries 0 [] [] w of
                (Inl err, w') \<Rightarrow> (Inl err, w')
              | (Inr (ps, uploadedImages), w') \<Rightarrow>
                  if length ps < 5
                  then (Inl (RosterSizeViolation (length ps)),
                        cleanupCloudinaryImages e uploadedImages w')
                  else if length ps > 10
                  then (Inl (RosterSizeViolation (length ps)),
                        cleanupCloudinaryImages e uploadedImages w')
                  else (Inr (ps, uploadedImages), w')))"

text \<open>
  \<^verbatim>\<open>registerTeam\<close> of the Cloudinary controller. A rejected \<^verbatim>\<open>findOne\<close> or \<^verbatim>\<open>save\<close> lands
  in the catch block, which cleans up the uploads and answers 500.
\<close>

definition registerTeam ::
  "env \<Rightarrow> body \<Rightarrow> uploaded_file list \<Rightarrow> world \<Rightarrow> response \<times> world"
where
  "registerTeam e b files w =
     (if missingRequiredFields b then (Inl MissingRequiredField, w)
      else if missingEmergencyContact b then (Inl MissingRequiredField, w)
      else
        (case processPlayersDataWithCloudinary e b files (generateTeamId e) w of
           (Inl err, w1) \<Rightarrow> (Inl err, w1)
         | (Inr (ps, uploadedImages), w1) \<Rightarrow>
             if \<not> findOneResolves e
             then (Inl PersistenceError, cleanupCloudinaryImages e uploadedImages w1)
             else if findExistingTeam b w1 \<noteq> None
             then (Inl DuplicateRegistration, cleanupCloudinaryImages e uploadedImages w1)
             else
               (let t = calculatePlayerAges e
                          (newTeam e b (the (b_emergencyContact b)) (generateTeamId e) ps)
                in if \<not> validatePlayerAgesForTier e t
                   then (Inl AgeEligibilityViolation,
                         cleanupCloudinaryImages e uploadedImages w1)
                   else if \<not> saveResolves e t
                   then (Inl PersistenceError, cleanupCloudinaryImages e uploadedImages w1)
                   else
                     (let w2 = save t w1;
                          w3 = sendTeamConfirmationEmail e t w2;
                          w4 = sendAdminNotificationEmail e t w3
                      in (Inr (teamId t, getPaymentInstructions e t), w4)))))"

subsection \<open>The controller with multer's disk storage\<close>

text \<open>
  The middleware \<^verbatim>\<open>upload.any()\<close> that this controller exports runs before the handler
  and writes every file of the request to the disk, whatever the name of its field, at
  the path it reports in \<^verbatim>\<open>file.path\<close>. The files are those that the middleware lets
  through: images, ten at most.
\<close>

definition uploadAny :: "uploaded_file list \<Rightarrow> world \<Rightarrow> world" where
  "uploadAny files w = w\<lparr>disk := disk w \<union> set (map path files)\<rparr>"

text \<open>
  \<^verbatim>\<open>cleanupUploadedFiles\<close>: one \<^verbatim>\<open>fs.unlink\<close> per player, all started together; a
  rejection is caught and logged.
\<close>

definition cleanupUploadedFiles :: "env \<Rightarrow> player list \<Rightarrow> world \<Rightarrow> world" where
  "cleanupUploadedFiles e ps w =
     w\<lparr>disk := disk w - set (filter (unlink e) (List.map_filter idPhotoUrl ps))\<rparr>"

text \<open>The cleanup in the catch block of the handler: one unlink per file of the request.\<close>

definition unlinkRequestFiles :: "env \<Rightarrow> uploaded_file list \<Rightarrow> world \<Rightarrow> world" where
  "unlinkRequestFiles e files w =
     w\<lparr>disk := disk w - set (filter (unlink e) (map path files))\<rparr>"

text \<open>The \<^verbatim>\<open>while (body.players[playerIndex])\<close> loop of \<^verbatim>\<open>processPlayersData\<close>.\<close>

fun collectPlayers ::
  "uploaded_file list \<Rightarrow> raw_player option list \<Rightarrow> nat \<Rightarrow> player list \<Rightarrow> error + player list"
where
  "collectPlayers playerFiles [] playerIndex acc = Inr acc"
| "collectPlayers playerFiles (None # rest) playerIndex acc = Inr acc"
| "collectPlayers playerFiles (Some rp # rest) playerIndex acc =
     (if falsy (raw_playerName rp) \<or> raw_dateOfBirth rp = None
      then Inl (MissingPlayerField playerIndex)
      else
        (case findPlayerFile playerFiles playerIndex of
           None \<Rightarrow> Inl (MissingIdentityPhoto playerIndex)
         | Some playerFile \<Rightarrow>
             collectPlayers playerFiles rest (playerIndex + 1)
               (acc @ [\<lparr>playerName = trim (raw_playerName rp),
                        dateOfBirth = the (raw_dateOfBirth rp),
                        idPhotoUrl = Some (path playerFile),
                        idPhotoPublicId = None,
                        idPhotoOriginalName = Some (originalname playerFile),
                        ageAtRegistration = 0\<rparr>])))"

text \<open>
  \<^verbatim>\<open>processPlayersData\<close>. The two returns inside the loop and the catch block return
  at once; the two checks of the player count call \<^verbatim>\<open>cleanupUploadedFiles\<close> first.
\<close>

definition processPlayersData ::
  "env \<Rightarrow> body \<Rightarrow> uploaded_file list \<Rightarrow> world \<Rightarrow> (error + player list) \<times> world"
where
  "processPlayersData e b files w =
     (case b_players b of
        None \<Rightarrow> (Inl ProcessingError, w)
      | Some entries \<Rightarrow>
          (case collectPlayers files entries 0 [] of
             Inl err \<Rightarrow> (Inl err, w)
           | Inr ps \<Rightarrow>
               if length ps < 5
               then (Inl (RosterSizeViolation (length ps)), cleanupUploadedFiles e ps w)
               else if length ps > 10
               then (Inl (RosterSizeViolation (length ps)), cleanupUploadedFiles e ps w)
               else (Inr ps, w)))"

text \<open>\<^verbatim>\<open>path.basename\<close>: what follows the last separator.\<close>

definition basename :: "string \<Rightarrow> string" where
  "basename p = rev (takeWhile (\<lambda>c. c \<noteq> CHR ''/'') (rev p))"

definition teamUploadPath :: "env \<Rightarrow> team \<Rightarrow> string" where
  "teamUploadPath e t = cwd e @ ''/uploads/team-ids/'' @ teamId t"

text \<open>
  The loop of \<^verbatim>\<open>updateFilePathsWithTeamId\<close>: each photo is moved into the directory of
  the team and the path of the player is updated in memory. The first component of the
  result tells whether the loop finished; a rename that rejects (or a player without a
  path) throws out of it.
\<close>

fun movePlayerFiles ::
  "env \<Rightarrow> string \<Rightarrow> player list \<Rightarrow> player list \<Rightarrow> world \<Rightarrow> bool \<times> player list \<times> world"
where
  "movePlayerFiles e uploadPath [] moved w = (True, moved, w)"
| "movePlayerFiles e uploadPath (p # rest) moved w =
     (case idPhotoUrl p of
        None \<Rightarrow> (False, moved @ p # rest, w)
      | Some oldPath \<Rightarrow>
          (let newPath = uploadPath @ ''/'' @ basename oldPath
           in if rename e oldPath newPath
              then movePlayerFiles e uploadPath rest
                     (moved @ [p\<lparr>idPhotoUrl := Some newPath\<rparr>])
                     (w\<lparr>disk := insert newPath (disk w - {oldPath})\<rparr>)
              else (False, moved @ p # rest, w)))"

text \<open>A second \<^verbatim>\<open>team.save()\<close> of the document stored last replaces it.\<close>

definition saveAgain :: "team \<Rightarrow> world \<Rightarrow> world" where
  "saveAgain t w = w\<lparr>teams := butlast (teams w) @ [t]\<rparr>"

text \<open>
  \<^verbatim>\<open>updateFilePathsWithTeamId\<close>: everything is inside one \<^verbatim>\<open>try\<close> whose \<^verbatim>\<open>catch\<close> logs
  and does not throw. The result is the team as the handler holds it afterwards.
\<close>

definition updateFilePathsWithTeamId :: "env \<Rightarrow> team \<Rightarrow> world \<Rightarrow> team \<times> world" where
  "updateFilePathsWithTeamId e t w =
     (if \<not> mkdir e (teamUploadPath e t) then (t, w)
      else
        (case movePlayerFiles e (teamUploadPath e t) (players t) [] w of
           (finished, ps, w') \<Rightarrow>
             (let t' = t\<lparr>players := ps\<rparr>
              in if finished \<and> saveResolves e t' then (t', saveAgain t' w') else (t', w'))))"

text \<open>
  \<^verbatim>\<open>registerTeam\<close> of the disk controller. Its catch block unlinks the files of the
  request; the returns for missing fields, for a failed roster and for a duplicate
  leave the disk as it is.
\<close>

definition registerTeam_disk ::
  "env \<Rightarrow> body \<Rightarrow> uploaded_file list \<Rightarrow> world \<Rightarrow> response \<times> world"
where
  "registerTeam_disk e b files w =
     (if missingRequiredFields b then (Inl MissingRequiredField, w)
      else if missingEmergencyContact b then (Inl MissingRequiredField, w)
      else
        (case processPlayersData e b files w of
           (Inl err, w1) \<Rightarrow> (Inl err, w1)
         | (Inr ps, w1) \<Rightarrow>
             if \<not> findOneResolves e
             then (Inl PersistenceError, unlinkRequestFiles e files w1)
             else if findExistingTeam b w1 \<noteq> None
             then (Inl DuplicateRegistration, w1)
             else
               (let t = calculatePlayerAges e
                          (newTeam e b (the (b_emergencyContact b)) (generateTeamId e) ps)
                in if \<not> validatePlayerAgesForTier e t
                   then (Inl AgeEligibilityViolation, cleanupUploadedFiles e ps w1)
                   else if \<not> saveResolves e t
                   then (Inl PersistenceError, unlinkRequestFiles e files w1)
                   else
                     (case updateFilePathsWithTeamId e t (save t w1) of
                        (t', w3) \<Rightarrow>
                          (let w4 = sendTeamConfirmationEmail e t' w3;
                               w5 = sendAdminNotificationEmail e t' w4
                           in (Inr (teamId t', getPaymentInstructions e t'), w5))))))"

text \<open>A submission to the disk controller: the middleware, then the handler.\<close>

definition submit_disk ::
  "env \<Rightarrow> body \<Rightarrow> uploaded_file list \<Rightarrow> world \<Rightarrow> response \<times> world"
where
  "submit_disk e b files w = registerTeam_disk e b files (uploadAny files w)"

subsection \<open>Notions used by the statements\<close>

text \<open>The team that the handlers construct from a request and a roster, ages computed.\<close>

abbreviation builtTeam :: "env \<Rightarrow> body \<Rightarrow> player list \<Rightarrow> team" where
  "builtTeam e b ps \<equiv>
     calculatePlayerAges e (newTeam e b (the (b_emergencyContact b)) (generateTeamId e) ps)"

text \<open>The public ids that the upload service can hand out.\<close>

definition uploadedIds :: "env \<Rightarrow> string set" where
  "uploadedIds e =
     {i. \<exists>buf folder r. uploadImageToCloudinary e buf folder = Some r \<and> public_id r = i}"

text \<open>
  The assumptions on the upload service under which a rollback restores the store: every
  deletion resolves, and no upload reuses a public id that the store already holds.
\<close>

definition reliableStore :: "env \<Rightarrow> world \<Rightarrow> bool" where
  "reliableStore e w \<longleftrightarrow>
     (\<forall>i. deleteImageFromCloudinary e i) \<and> uploadedIds e \<inter> cloud w = {}"

subsection \<open>A sample submission\<close>

text \<open>
  A request as the registration form sends it: five players born in 2013, one identity
  photo each, tier \<^verbatim>\<open>middle\<close>, payment by Zelle; and collaborators that all answer.
  The fees and age ranges of the sample are placeholders for the tables of the Team
  model; no statement depends on their values.
\<close>

definition sample_env :: env where
  "sample_env =
     \<lparr>generateTeamId = ''TEAM-ABC123'',
      getRegistrationFees =
        (\<lambda>t. if t = ''elementary'' then Some 300 else if t = ''middle'' then Some 350
             else if t = ''high_school'' then Some 400 else None),
      ageRanges =
        (\<lambda>t. if t = ''elementary'' then Some (6, 10) else if t = ''middle'' then Some (11, 13)
             else if t = ''high_school'' then Some (14, 18) else None),
      now = \<lparr>year = 2025, month = 11, day = 1\<rparr>,
      uploadImageToCloudinary =
        (\<lambda>buf folder. Some \<lparr>secure_url = ''https://cdn/'' @ folder, public_id = folder\<rparr>),
      deleteImageFromCloudinary = (\<lambda>_. True),
      unlink = (\<lambda>_. True),
      mkdir = (\<lambda>_. True),
      rename = (\<lambda>_ _. True),
      findOneResolves = True,
      saveResolves = (\<lambda>_. True),
      sendMail = (\<lambda>_. True),
      cwd = ''/app'',
      MAILING_ADDRESS = [],
      ZELLE_EMAIL = [],
      VENMO_USERNAME = [],
      ADMIN_EMAILS = [],
      toLocaleString = decimal\<rparr>"

definition sample_player :: "string \<Rightarrow> int \<Rightarrow> raw_player option" where
  "sample_player n y =
     Some \<lparr>raw_playerName = n, raw_dateOfBirth = Some \<lparr>year = y, month = 5, day = 20\<rparr>\<rparr>"

definition sample_body :: body where
  "sample_body =
     \<lparr>b_teamName = ''Falcons'', b_organization = ''Alhuda'', b_city = ''Fishers'',
      b_tier = ''middle'', b_gender = ''boys'', b_coachName = ''Sam'',
      b_coachEmail = ''Coach@Example.org'', b_coachPhone = ''3175550100'',
      b_emergencyContact =
        Some \<lparr>ec_name = ''Pat'', ec_phone = ''3175550101'', ec_relationship = ''parent''\<rparr>,
      b_paymentMethod = ''zelle'', b_specialRequirements = [], b_comments = [],
      b_players =
        Some [sample_player ''Ali'' 2013, sample_player ''Ben'' 2013, sample_player ''Cal'' 2013,
              sample_player ''Dan'' 2013, sample_player ''Eli'' 2013]\<rparr>"

definition sample_file :: "nat \<Rightarrow> uploaded_file" where
  "sample_file i =
     \<lparr>fieldname = idPhotoField i, originalname = ''id.png'', buffer = ''png'',
      path = ''/app/uploads/team-ids/player-'' @ decimal i @ ''-1.png''\<rparr>"

definition sample_files :: "uploaded_file list" where
  "sample_files = map sample_file [0, 1, 2, 3, 4]"

definition empty_world :: world where
  "empty_world = \<lparr>cloud = {}, disk = {}, teams = [], outbox = []\<rparr>"

text \<open>The sample submission with the name of the last player left empty.\<close>

definition nameless_body :: body where
  "nameless_body =
     sample_body\<lparr>b_players :=
        Some [sample_player ''Ali'' 2013, sample_player ''Ben'' 2013, sample_player ''Cal'' 2013,
              sample_player ''Dan'' 2013,
              Some \<lparr>raw_playerName = [],
                    raw_dateOfBirth = Some \<lparr>year = 2013, month = 5, day = 20\<rparr>\<rparr>]\<rparr>"

text \<open>The sample submission with a last player born in 2005, too old for the tier.\<close>

definition overage_body :: body where
  "overage_body =
     sample_body\<lparr>b_players :=
        Some [sample_player ''Ali'' 2013, sample_player ''Ben'' 2013, sample_player ''Cal'' 2013,
              sample_player ''Dan'' 2013, sample_player ''Eli'' 2005]\<rparr>"

text \<open>
  Four players only, the last of them born in 2005, and the sample submission for the
  tier \<^verbatim>\<open>middle\<close> with the photos of the five players and one more photo, sent under the
  field name of index 7, for which the form has no player.
\<close>

definition short_overage_body :: body where
  "short_overage_body =
     sample_body\<lparr>b_players :=
        Some [sample_player ''Ali'' 2013, sample_player ''Ben'' 2013, sample_player ''Cal'' 2013,
              sample_player ''Dan'' 2005]\<rparr>"

definition stray_files :: "uploaded_file list" where
  "stray_files = sample_files @ [sample_file 7]"

text \<open>Some player of a roster has, at the reference date, an age outside a range.\<close>

definition someAgeOutside :: "env \<Rightarrow> int \<Rightarrow> int \<Rightarrow> player list \<Rightarrow> bool" where
  "someAgeOutside e minAge maxAge ps \<longleftrightarrow>
     (\<exists>p \<in> set ps. age (dateOfBirth p) (now e) < minAge \<or> maxAge < age (dateOfBirth p) (now e))"

text \<open>The sample submission for a tier that no table knows.\<close>

definition varsity_body :: body where
  "varsity_body = sample_body\<lparr>b_tier := ''varsity''\<rparr>"

text \<open>
  The world after the sample submission has been registered once, and the collaborators
  of a second request, which generate another team id.
\<close>

definition once_registered :: world where
  "once_registered = snd (registerTeam sample_env sample_body sample_files empty_world)"

definition second_env :: env where
  "second_env = sample_env\<lparr>generateTeamId := ''TEAM-XYZ789''\<rparr>"

text \<open>The sample submission with four players only.\<close>

definition short_body :: body where
  "short_body =
     sample_body\<lparr>b_players :=
        Some [sample_player ''Ali'' 2013, sample_player ''Ben'' 2013, sample_player ''Cal'' 2013,
              sample_player ''Dan'' 2013]\<rparr>"

text \<open>
  The sample submission followed, after a gap at index 5, by an entry without name and
  date and by a player born in 1990.
\<close>

definition gap_body :: body where
  "gap_body =
     sample_body\<lparr>b_players :=
        Some [sample_player ''Ali'' 2013, sample_player ''Ben'' 2013, sample_player ''Cal'' 2013,
              sample_player ''Dan'' 2013, sample_player ''Eli'' 2013,
              None,
              Some \<lparr>raw_playerName = [], raw_dateOfBirth = None\<rparr>,
              sample_player ''Gus'' 1990]\<rparr>"

text \<open>The entries before the first index without a field group.\<close>

abbreviation contiguous :: "raw_player option list \<Rightarrow> raw_player option list" where
  "contiguous entries \<equiv> takeWhile (\<lambda>x. x \<noteq> None) entries"

text \<open>
  The files of a request that carry the identity photo of a player index below \<open>n\<close>, and
  the photos sent with the submission above: one for each of the five players and one for
  each of the two entries behind the gap.
\<close>

definition photosBelow :: "nat \<Rightarrow> uploaded_file list \<Rightarrow> uploaded_file list" where
  "photosBelow n files = filter (\<lambda>file. fieldname file \<in> set (map idPhotoField [0..<n])) files"

definition gap_files :: "uploaded_file list" where
  "gap_files = sample_files @ [sample_file 6, sample_file 7]"

text \<open>Collaborators whose transporter rejects every mail.\<close>

definition mute_env :: env where
  "mute_env = sample_env\<lparr>sendMail := (\<lambda>_. False)\<rparr>"

text \<open>A player for whose index the request holds no photo carries no reference.\<close>

definition unreferenced :: "uploaded_file list \<Rightarrow> nat \<Rightarrow> player \<Rightarrow> bool" where
  "unreferenced fs j p \<longleftrightarrow>
     (findPlayerFile fs j = None \<longrightarrow>
        idPhotoUrl p = None \<and> idPhotoPublicId p = None \<and> idPhotoOriginalName p = None)"

text \<open>The sample submission for the tier \<^verbatim>\<open>high_school\<close>.\<close>

definition high_school_body :: body where
  "high_school_body = sample_body\<lparr>b_tier := ''high_school''\<rparr>"

text \<open>The photos of the first four players only.\<close>

definition four_files :: "uploaded_file list" where
  "four_files = map sample_file [0, 1, 2, 3]"

subsection \<open>Facts about the age calculator\<close>

lemma age_counts_birthdays:
  "date_le (add_years dob n) asOf \<longleftrightarrow> n \<le> age dob asOf"
  by (auto simp: date_le_def add_years_def age_def month_day_precedes_def Let_def)

lemma next_day_same_year_precedes:
  assumes "valid_date d" and "\<not> (month d = 12 \<and> day d = 31)"
  shows "year (next_day d) = year d \<and> month_day_precedes d (next_day d)"
proof -
  from assms have "day d < days_in_month (year d) (month d) \<or> month d < 12"
    by (auto simp: valid_date_def days_in_month_def split: if_splits)
  then show ?thesis
    by (auto simp: next_day_def month_day_precedes_def)
qed

lemma next_day_new_year:
  assumes "valid_date d" and "month d = 12" and "day d = 31"
  shows "next_day d = \<lparr>year = year d + 1, month = 1, day = 1\<rparr>"
  using assms by (simp add: next_day_def days_in_month_def)

lemma age_exact_years:
  "age \<lparr>year = year r - N, month = month r, day = day r\<rparr> r = N"
  by (simp add: age_def month_day_precedes_def)

lemma age_one_day_short:
  assumes "valid_date \<lparr>year = year r - N, month = month r, day = day r\<rparr>"
  shows "age (next_day \<lparr>year = year r - N, month = month r, day = day r\<rparr>) r = N - 1"
proof (cases "month r = 12 \<and> day r = 31")
  case True
  with assms show ?thesis
    by (simp add: next_day_new_year age_def month_day_precedes_def)
next
  case False
  let ?d = "\<lparr>year = year r - N, month = month r, day = day r\<rparr>"
  from False have "\<not> (month ?d = 12 \<and> day ?d = 31)" by simp
  from next_day_same_year_precedes [OF assms this]
  have y: "year (next_day ?d) = year r - N"
    and p: "month_day_precedes ?d (next_day ?d)" by simp_all
  from p have "month_day_precedes r (next_day ?d)"
    by (simp add: month_day_precedes_def)
  with y show ?thesis by (simp add: age_def)
qed

text \<open>
  C7. For every pair of dates the age is the difference of the years, less one exactly
  when the month and day of the reference date precede those of the date of birth. A
  player born exactly \<open>N\<close> years before the reference date (same month and day) has age
  \<open>N\<close>; one born a day later, that is \<open>N\<close> years minus one day before it, has age \<open>N - 1\<close>.
  The reference date 2025-11-01 gives age 13 for the birth date 2012-11-01 and age 12 for
  2012-11-02.
\<close>

theorem age_birthday_rule:
  "(age dob asOf = year asOf - year dob - 1 \<longleftrightarrow> month_day_precedes asOf dob) \<and>
   (age dob asOf = year asOf - year dob \<longleftrightarrow> \<not> month_day_precedes asOf dob) \<and>
   age (add_years r (- N)) r = N \<and>
   (valid_date (add_years r (- N)) \<longrightarrow> age (next_day (add_years r (- N))) r = N - 1) \<and>
   age \<lparr>year = 2012, month = 11, day = 1\<rparr> \<lparr>year = 2025, month = 11, day = 1\<rparr> = 13 \<and>
   age \<lparr>year = 2012, month = 11, day = 2\<rparr> \<lparr>year = 2025, month = 11, day = 1\<rparr> = 12"
proof -
  have a: "add_years r (- N) = \<lparr>year = year r - N, month = month r, day = day r\<rparr>"
    by (simp add: add_years_def)
  have 1: "age dob asOf = year asOf - year dob - 1 \<longleftrightarrow> month_day_precedes asOf dob"
    by (simp add: age_def Let_def)
  have 2: "age dob asOf = year asOf - year dob \<longleftrightarrow> \<not> month_day_precedes asOf dob"
    by (simp add: age_def Let_def)
  have 3: "age (add_years r (- N)) r = N"
    unfolding a by (rule age_exact_years)
  have 4: "valid_date (add_years r (- N)) \<longrightarrow> age (next_day (add_years r (- N))) r = N - 1"
    unfolding a using age_one_day_short by blast
  have 5: "age \<lparr>year = 2012, month = 11, day = 1\<rparr> \<lparr>year = 2025, month = 11, day = 1\<rparr> = 13"
    by (simp add: age_def month_day_precedes_def)
  have 6: "age \<lparr>year = 2012, month = 11, day = 2\<rparr> \<lparr>year = 2025, month = 11, day = 1\<rparr> = 12"
    by (simp add: age_def month_day_precedes_def)
  from 1 2 3 4 5 6 show ?thesis by blast
qed

theorem age_birthday_rule_witness:
  "valid_date (add_years \<lparr>year = 2025, month = 2, day = 28\<rparr> (- 13)) \<and>
   age (next_day (add_years \<lparr>year = 2025, month = 2, day = 28\<rparr> (- 13)))
       \<lparr>year = 2025, month = 2, day = 28\<rparr> = 12 \<and>
   next_day (add_years \<lparr>year = 2025, month = 2, day = 28\<rparr> (- 13))
     = \<lparr>year = 2012, month = 2, day = 29\<rparr>"
proof -
  have v: "valid_date (add_years \<lparr>year = 2025, month = 2, day = 28\<rparr> (- 13))"
    by (simp add: valid_date_def add_years_def days_in_month_def leap_year_def)
  have n: "next_day (add_years \<lparr>year = 2025, month = 2, day = 28\<rparr> (- 13))
     = \<lparr>year = 2012, month = 2, day = 29\<rparr>"
    by (simp add: next_day_def add_years_def days_in_month_def leap_year_def)
  from age_birthday_rule [of _ _ "\<lparr>year = 2025, month = 2, day = 28\<rparr>" 13] v
  have "age (next_day (add_years \<lparr>year = 2025, month = 2, day = 28\<rparr> (- 13)))
       \<lparr>year = 2025, month = 2, day = 28\<rparr> = 13 - 1" by blast
  with v n show ?thesis by simp
qed

subsection \<open>What a run of the handlers changes\<close>

lemma cleanupCloudinaryImages_keeps:
  "teams (cleanupCloudinaryImages e ids w) = teams w"
  "disk (cleanupCloudinaryImages e ids w) = disk w"
  "outbox (cleanupCloudinaryImages e ids w) = outbox w"
  "cloud (cleanupCloudinaryImages e ids w) = cloud w - set (filter (deleteImageFromCloudinary e) ids)"
  by (simp_all add: cleanupCloudinaryImages_def)

lemma collectPlayersWithCloudinary_keeps:
  "collectPlayersWithCloudinary e fs rq tf entries i acc ups w = (r, w') \<Longrightarrow>
   teams w' = teams w \<and> disk w' = disk w \<and> outbox w' = outbox w"
proof (induction entries arbitrary: i acc ups w)
  case Nil
  then show ?case by simp
next
  case (Cons x entries)
  show ?case
  proof (cases x)
    case None
    with Cons.prems show ?thesis by simp
  next
    case (Some rp)
    with Cons.prems Cons.IH show ?thesis
      by (fastforce simp: cleanupCloudinaryImages_keeps split: if_splits option.splits)
  qed
qed

lemma collectPlayersWithCloudinary_cloud:
  "collectPlayersWithCloudinary e fs rq tf entries i acc ups w = (r, w') \<Longrightarrow>
   (case r of
      Inr (ps, ups') \<Rightarrow>
        (\<exists>new. ups' = ups @ new \<and> cloud w' = cloud w \<union> set new \<and> set new \<subseteq> uploadedIds e)
    | Inl err \<Rightarrow>
        (\<exists>new. cloud w' = (cloud w \<union> set new) - set (filter (deleteImageFromCloudinary e) (ups @ new))
               \<and> set new \<subseteq> uploadedIds e))"
proof (induction entries arbitrary: i acc ups w rq)
  case Nil
  then show ?case by auto
next
  case (Cons x entries)
  show ?case
  proof (cases x)
    case None
    with Cons.prems show ?thesis by auto
  next
    case (Some rp)
    show ?thesis
    proof (cases "falsy (raw_playerName rp) \<or> raw_dateOfBirth rp = None")
      case True
      with Some Cons.prems have "r = Inl (MissingPlayerField i)" "w' = cleanupCloudinaryImages e ups w"
        by auto
      then show ?thesis
        by (auto simp: cleanupCloudinaryImages_keeps intro!: exI [of _ "[]"])
    next
      case valid: False
      show ?thesis
      proof (cases "findPlayerFile fs i")
        case None
        show ?thesis
        proof (cases rq)
          case True
          with None valid Some Cons.prems
          have "r = Inl (MissingIdentityPhoto i)" "w' = cleanupCloudinaryImages e ups w"
            by auto
          then show ?thesis
            by (auto simp: cleanupCloudinaryImages_keeps intro!: exI [of _ "[]"])
        next
          case False
          with None valid Some Cons.prems Cons.IH show ?thesis
            by auto
        qed
      next
        case (Some f) note pf = this
        show ?thesis
        proof (cases "uploadImageToCloudinary e (buffer f) (playerFolder tf (raw_playerName rp) i)")
          case None
          with pf valid \<open>x = Some rp\<close> Cons.prems
          have "r = Inl (UploadFailure i)" "w' = cleanupCloudinaryImages e ups w"
            by auto
          then show ?thesis
            by (auto simp: cleanupCloudinaryImages_keeps intro!: exI [of _ "[]"])
        next
          case (Some res)
          let ?w = "w\<lparr>cloud := insert (public_id res) (cloud w)\<rparr>"
          from Some have up: "public_id res \<in> uploadedIds e"
            by (auto simp: uploadedIds_def)
          from Some pf valid \<open>x = Some rp\<close> Cons.prems
          obtain a where rec: "collectPlayersWithCloudinary e fs rq tf entries (i + 1) a
                   (ups @ [public_id res]) ?w = (r, w')"
            by auto
          show ?thesis
          proof (cases r)
            case (Inl err)
            with Cons.IH [OF rec] obtain new where
              "cloud w' = (cloud ?w \<union> set new)
                 - set (filter (deleteImageFromCloudinary e) ((ups @ [public_id res]) @ new))"
              "set new \<subseteq> uploadedIds e"
              by auto
            with up Inl show ?thesis
              by (auto intro!: exI [of _ "public_id res # new"])
          next
            case (Inr pr)
            obtain ps ups' where pr: "pr = (ps, ups')" by (cases pr)
            with Inr Cons.IH [OF rec] obtain new where
              "ups' = (ups @ [public_id res]) @ new" "cloud w' = cloud ?w \<union> set new"
              "set new \<subseteq> uploadedIds e"
              by auto
            with up Inr pr show ?thesis
              by (auto intro!: exI [of _ "public_id res # new"])
          qed
        qed
      qed
    qed
  qed
qed

lemma processPlayersDataWithCloudinary_None:
  "b_players b = None \<Longrightarrow> processPlayersDataWithCloudinary e b fs tid w = (Inl ProcessingError, w)"
  by (simp add: processPlayersDataWithCloudinary_def cleanupCloudinaryImages_def)

lemma processPlayersDataWithCloudinary_Inl:
  "b_players b = Some entries \<Longrightarrow>
   collectPlayersWithCloudinary e fs (b_tier b = ''high_school'')
      (replace_non_alphanumeric (b_teamName b) @ ''_'' @ tid) entries 0 [] [] w = (Inl err, w1) \<Longrightarrow>
   processPlayersDataWithCloudinary e b fs tid w = (Inl err, w1)"
  by (simp add: processPlayersDataWithCloudinary_def)

lemma processPlayersDataWithCloudinary_Inr:
  "b_players b = Some entries \<Longrightarrow>
   collectPlayersWithCloudinary e fs (b_tier b = ''high_school'')
      (replace_non_alphanumeric (b_teamName b) @ ''_'' @ tid) entries 0 [] [] w = (Inr (ps, ups), w1) \<Longrightarrow>
   processPlayersDataWithCloudinary e b fs tid w =
     (if length ps < 5 \<or> 10 < length ps
      then (Inl (RosterSizeViolation (length ps)), cleanupCloudinaryImages e ups w1)
      else (Inr (ps, ups), w1))"
  by (simp add: processPlayersDataWithCloudinary_def)

lemma processPlayersDataWithCloudinary_keeps:
  assumes "processPlayersDataWithCloudinary e b fs tid w = (r, w')"
  shows "teams w' = teams w \<and> disk w' = disk w \<and> outbox w' = outbox w"
proof (cases "b_players b")
  case None
  from assms show ?thesis
    unfolding processPlayersDataWithCloudinary_None [OF None] by simp
next
  case (Some entries)
  obtain r1 w1 where c: "collectPlayersWithCloudinary e fs (b_tier b = ''high_school'')
      (replace_non_alphanumeric (b_teamName b) @ ''_'' @ tid) entries 0 [] [] w = (r1, w1)"
    by (cases "collectPlayersWithCloudinary e fs (b_tier b = ''high_school'')
      (replace_non_alphanumeric (b_teamName b) @ ''_'' @ tid) entries 0 [] [] w")
  from collectPlayersWithCloudinary_keeps [OF c]
  have k: "teams w1 = teams w \<and> disk w1 = disk w \<and> outbox w1 = outbox w" .
  show ?thesis
  proof (cases r1)
    case (Inl err1)
    from assms have "w' = w1"
      unfolding processPlayersDataWithCloudinary_Inl [OF Some c [unfolded Inl]] by simp
    with k show ?thesis by simp
  next
    case (Inr pr)
    obtain ps ups where pr: "pr = (ps, ups)" by (cases pr)
    from assms have "w' = w1 \<or> w' = cleanupCloudinaryImages e ups w1"
      unfolding processPlayersDataWithCloudinary_Inr [OF Some c [unfolded Inr pr]]
      by (simp split: if_splits)
    then show ?thesis
    proof
      assume "w' = w1"
      with k show ?thesis by simp
    next
      assume "w' = cleanupCloudinaryImages e ups w1"
      with k show ?thesis by (simp add: cleanupCloudinaryImages_keeps)
    qed
  qed
qed

lemma processPlayersDataWithCloudinary_ok:
  assumes "processPlayersDataWithCloudinary e b fs tid w = (Inr (ps, ups), w')"
  shows "5 \<le> length ps \<and> length ps \<le> 10 \<and> cloud w' = cloud w \<union> set ups \<and>
         set ups \<subseteq> uploadedIds e"
proof (cases "b_players b")
  case None
  from assms show ?thesis
    unfolding processPlayersDataWithCloudinary_None [OF None] by simp
next
  case (Some entries)
  obtain r1 w1 where c: "collectPlayersWithCloudinary e fs (b_tier b = ''high_school'')
      (replace_non_alphanumeric (b_teamName b) @ ''_'' @ tid) entries 0 [] [] w = (r1, w1)"
    by (cases "collectPlayersWithCloudinary e fs (b_tier b = ''high_school'')
      (replace_non_alphanumeric (b_teamName b) @ ''_'' @ tid) entries 0 [] [] w")
  show ?thesis
  proof (cases r1)
    case (Inl err1)
    from assms show ?thesis
      unfolding processPlayersDataWithCloudinary_Inl [OF Some c [unfolded Inl]] by simp
  next
    case (Inr pr)
    obtain ps1 ups1 where pr: "pr = (ps1, ups1)" by (cases pr)
    from assms have eq: "ps1 = ps" "ups1 = ups" "w1 = w'"
      and len: "5 \<le> length ps \<and> length ps \<le> 10"
      unfolding processPlayersDataWithCloudinary_Inr [OF Some c [unfolded Inr pr]]
      by (simp_all split: if_splits)
    from collectPlayersWithCloudinary_cloud [OF c] Inr pr eq len show ?thesis
      by auto
  qed
qed

lemma processPlayersDataWithCloudinary_failed:
  assumes "processPlayersDataWithCloudinary e b fs tid w = (Inl err, w')"
  shows "\<exists>new. cloud w' = (cloud w \<union> set new) - set (filter (deleteImageFromCloudinary e) new)
           \<and> set new \<subseteq> uploadedIds e"
proof (cases "b_players b")
  case None
  from assms have "w' = w"
    unfolding processPlayersDataWithCloudinary_None [OF None] by simp
  then show ?thesis by (auto intro!: exI [of _ "[]"])
next
  case (Some entries)
  obtain r1 w1 where c: "collectPlayersWithCloudinary e fs (b_tier b = ''high_school'')
      (replace_non_alphanumeric (b_teamName b) @ ''_'' @ tid) entries 0 [] [] w = (r1, w1)"
    by (cases "collectPlayersWithCloudinary e fs (b_tier b = ''high_school'')
      (replace_non_alphanumeric (b_teamName b) @ ''_'' @ tid) entries 0 [] [] w")
  show ?thesis
  proof (cases r1)
    case (Inl err1)
    from assms have "w' = w1"
      unfolding processPlayersDataWithCloudinary_Inl [OF Some c [unfolded Inl]] by simp
    with collectPlayersWithCloudinary_cloud [OF c] Inl show ?thesis
      by auto
  next
    case (Inr pr)
    obtain ps ups where pr: "pr = (ps, ups)" by (cases pr)
    from assms have w': "w' = cleanupCloudinaryImages e ups w1"
      unfolding processPlayersDataWithCloudinary_Inr [OF Some c [unfolded Inr pr]]
      by (simp split: if_splits)
    from collectPlayersWithCloudinary_cloud [OF c] Inr pr
    have "cloud w1 = cloud w \<union> set ups" "set ups \<subseteq> uploadedIds e"
      by auto
    with w' show ?thesis
      by (auto simp: cleanupCloudinaryImages_keeps intro!: exI [of _ ups])
  qed
qed

lemma registerTeam_missing:
  "missingRequiredFields b \<or> missingEmergencyContact b \<Longrightarrow>
   registerTeam e b fs w = (Inl MissingRequiredField, w)"
  by (auto simp: registerTeam_def)

lemma registerTeam_roster_failed:
  "\<not> missingRequiredFields b \<Longrightarrow> \<not> missingEmergencyContact b \<Longrightarrow>
   processPlayersDataWithCloudinary e b fs (generateTeamId e) w = (Inl err, w1) \<Longrightarrow>
   registerTeam e b fs w = (Inl err, w1)"
  by (simp add: registerTeam_def)

lemma registerTeam_roster_built:
  "\<not> missingRequiredFields b \<Longrightarrow> \<not> missingEmergencyContact b \<Longrightarrow>
   processPlayersDataWithCloudinary e b fs (generateTeamId e) w = (Inr (ps, ups), w1) \<Longrightarrow>
   registerTeam e b fs w =
     (if \<not> findOneResolves e then (Inl PersistenceError, cleanupCloudinaryImages e ups w1)
      else if findExistingTeam b w1 \<noteq> None
      then (Inl DuplicateRegistration, cleanupCloudinaryImages e ups w1)
      else if \<not> validatePlayerAgesForTier e (builtTeam e b ps)
      then (Inl AgeEligibilityViolation, cleanupCloudinaryImages e ups w1)
      else if \<not> saveResolves e (builtTeam e b ps)
      then (Inl PersistenceError, cleanupCloudinaryImages e ups w1)
      else (Inr (teamId (builtTeam e b ps), getPaymentInstructions e (builtTeam e b ps)),
            sendAdminNotificationEmail e (builtTeam e b ps)
              (sendTeamConfirmationEmail e (builtTeam e b ps) (save (builtTeam e b ps) w1))))"
  by (simp add: registerTeam_def Let_def)

lemma registerTeam_failed:
  assumes "registerTeam e b fs w = (Inl err, w')"
  shows "teams w' = teams w \<and> disk w' = disk w \<and> outbox w' = outbox w \<and>
         (\<exists>new. cloud w' = (cloud w \<union> set new) - set (filter (deleteImageFromCloudinary e) new)
           \<and> set new \<subseteq> uploadedIds e)"
proof (cases "missingRequiredFields b \<or> missingEmergencyContact b")
  case True
  from assms have "w' = w" unfolding registerTeam_missing [OF True] by simp
  then show ?thesis by (auto intro!: exI [of _ "[]"])
next
  case False
  then have nm: "\<not> missingRequiredFields b" "\<not> missingEmergencyContact b" by simp_all
  obtain r1 w1 where p: "processPlayersDataWithCloudinary e b fs (generateTeamId e) w = (r1, w1)"
    by (cases "processPlayersDataWithCloudinary e b fs (generateTeamId e) w")
  note k = processPlayersDataWithCloudinary_keeps [OF p]
  show ?thesis
  proof (cases r1)
    case (Inl err1)
    from assms have "w' = w1"
      unfolding registerTeam_roster_failed [OF nm p [unfolded Inl]] by simp
    with k processPlayersDataWithCloudinary_failed [OF p [unfolded Inl]] show ?thesis
      by simp
  next
    case (Inr pr)
    obtain ps ups where pr: "pr = (ps, ups)" by (cases pr)
    from assms have w': "w' = cleanupCloudinaryImages e ups w1"
      unfolding registerTeam_roster_built [OF nm p [unfolded Inr pr]]
      by (simp split: if_splits)
    from processPlayersDataWithCloudinary_ok [OF p [unfolded Inr pr]]
    have c: "cloud w1 = cloud w \<union> set ups" "set ups \<subseteq> uploadedIds e" by simp_all
    have "cloud w' = (cloud w \<union> set ups) - set (filter (deleteImageFromCloudinary e) ups)"
      by (simp add: w' cleanupCloudinaryImages_keeps c)
    with c have "\<exists>new. cloud w' = (cloud w \<union> set new) - set (filter (deleteImageFromCloudinary e) new)
           \<and> set new \<subseteq> uploadedIds e" by blast
    with k show ?thesis by (simp add: w' cleanupCloudinaryImages_keeps)
  qed
qed

lemma registerTeam_succeeded:
  assumes "registerTeam e b fs w = (Inr (tid, ins), w')"
  shows "\<exists>ps ups w1. \<not> missingRequiredFields b \<and> \<not> missingEmergencyContact b \<and>
           processPlayersDataWithCloudinary e b fs (generateTeamId e) w = (Inr (ps, ups), w1) \<and>
           findExistingTeam b w = None \<and> validatePlayerAgesForTier e (builtTeam e b ps) \<and>
           teams w' = teams w @ [builtTeam e b ps] \<and> tid = generateTeamId e \<and>
           ins = getPaymentInstructions e (builtTeam e b ps) \<and>
           disk w' = disk w \<and> cloud w' = cloud w \<union> set ups"
proof -
  from assms have nm: "\<not> missingRequiredFields b" "\<not> missingEmergencyContact b"
    using registerTeam_missing [of b e fs w] by auto
  obtain r1 w1 where p: "processPlayersDataWithCloudinary e b fs (generateTeamId e) w = (r1, w1)"
    by (cases "processPlayersDataWithCloudinary e b fs (generateTeamId e) w")
  note k = processPlayersDataWithCloudinary_keeps [OF p]
  have "\<exists>ps ups. r1 = Inr (ps, ups)"
  proof (cases r1)
    case (Inl err1)
    from assms show ?thesis
      unfolding registerTeam_roster_failed [OF nm p [unfolded Inl]] by simp
  next
    case (Inr pr)
    then show ?thesis by (cases pr) simp
  qed
  then obtain ps ups where r1: "r1 = Inr (ps, ups)" by blast
  note ok = processPlayersDataWithCloudinary_ok [OF p [unfolded r1]]
  let ?t = "builtTeam e b ps"
  from assms
  have w': "w' = sendAdminNotificationEmail e ?t (sendTeamConfirmationEmail e ?t (save ?t w1))"
    and tid: "tid = teamId ?t" and ins: "ins = getPaymentInstructions e ?t"
    and dup: "findExistingTeam b w1 = None" and va: "validatePlayerAgesForTier e ?t"
    unfolding registerTeam_roster_built [OF nm p [unfolded r1]]
    by (simp_all split: if_splits)
  have tid': "teamId ?t = generateTeamId e"
    by (simp add: calculatePlayerAges_def newTeam_def)
  from k have "findExistingTeam b w1 = findExistingTeam b w"
    by (simp add: findExistingTeam_def)
  with dup have dup': "findExistingTeam b w = None" by simp
  have "teams w' = teams w1 @ [?t]" "disk w' = disk w1" "cloud w' = cloud w1"
    by (simp_all add: w' sendAdminNotificationEmail_def sendTeamConfirmationEmail_def save_def)
  with k ok have "teams w' = teams w @ [?t]" "disk w' = disk w" "cloud w' = cloud w \<union> set ups"
    by simp_all
  with nm p r1 dup' va tid tid' ins show ?thesis by blast
qed

lemma cleanupUploadedFiles_keeps:
  "teams (cleanupUploadedFiles e ps w) = teams w"
  "cloud (cleanupUploadedFiles e ps w) = cloud w"
  "outbox (cleanupUploadedFiles e ps w) = outbox w"
  "disk (cleanupUploadedFiles e ps w) = disk w - set (filter (unlink e) (List.map_filter idPhotoUrl ps))"
  by (simp_all add: cleanupUploadedFiles_def)

lemma unlinkRequestFiles_keeps:
  "teams (unlinkRequestFiles e fs w) = teams w"
  "cloud (unlinkRequestFiles e fs w) = cloud w"
  "outbox (unlinkRequestFiles e fs w) = outbox w"
  "disk (unlinkRequestFiles e fs w) = disk w - set (filter (unlink e) (map path fs))"
  by (simp_all add: unlinkRequestFiles_def)

lemma processPlayersData_None:
  "b_players b = None \<Longrightarrow> processPlayersData e b fs w = (Inl ProcessingError, w)"
  by (simp add: processPlayersData_def)

lemma processPlayersData_Inl:
  "b_players b = Some entries \<Longrightarrow> collectPlayers fs entries 0 [] = Inl err \<Longrightarrow>
   processPlayersData e b fs w = (Inl err, w)"
  by (simp add: processPlayersData_def)

lemma processPlayersData_Inr:
  "b_players b = Some entries \<Longrightarrow> collectPlayers fs entries 0 [] = Inr ps \<Longrightarrow>
   processPlayersData e b fs w =
     (if length ps < 5 \<or> 10 < length ps
      then (Inl (RosterSizeViolation (length ps)), cleanupUploadedFiles e ps w)
      else (Inr ps, w))"
  by (simp add: processPlayersData_def)

lemma processPlayersData_keeps:
  assumes "processPlayersData e b fs w = (r, w')"
  shows "teams w' = teams w \<and> cloud w' = cloud w \<and> outbox w' = outbox w"
proof (cases "b_players b")
  case None
  from assms show ?thesis unfolding processPlayersData_None [OF None] by simp
next
  case (Some entries)
  show ?thesis
  proof (cases "collectPlayers fs entries 0 []")
    case (Inl err)
    from assms show ?thesis unfolding processPlayersData_Inl [OF Some Inl] by simp
  next
    case (Inr ps)
    from assms have "w' = w \<or> w' = cleanupUploadedFiles e ps w"
      unfolding processPlayersData_Inr [OF Some Inr] by (simp split: if_splits)
    then show ?thesis
    proof
      assume "w' = w" then show ?thesis by simp
    next
      assume "w' = cleanupUploadedFiles e ps w"
      then show ?thesis by (simp add: cleanupUploadedFiles_keeps)
    qed
  qed
qed

lemma processPlayersData_ok:
  assumes "processPlayersData e b fs w = (Inr ps, w')"
  shows "5 \<le> length ps \<and> length ps \<le> 10 \<and> w' = w \<and>
         (\<exists>entries. b_players b = Some entries \<and> collectPlayers fs entries 0 [] = Inr ps)"
proof (cases "b_players b")
  case None
  from assms show ?thesis unfolding processPlayersData_None [OF None] by simp
next
  case (Some entries)
  show ?thesis
  proof (cases "collectPlayers fs entries 0 []")
    case (Inl err)
    from assms show ?thesis unfolding processPlayersData_Inl [OF Some Inl] by simp
  next
    case (Inr ps1)
    from assms have "ps1 = ps" "w' = w" "5 \<le> length ps \<and> length ps \<le> 10"
      unfolding processPlayersData_Inr [OF Some Inr] by (simp_all split: if_splits)
    with Some Inr show ?thesis by simp
  qed
qed

lemma movePlayerFiles_keeps:
  "movePlayerFiles e up todo moved w = (fin, ps, w') \<Longrightarrow>
   teams w' = teams w \<and> cloud w' = cloud w \<and> outbox w' = outbox w \<and>
   length ps = length moved + length todo"
proof (induction todo arbitrary: moved w)
  case Nil
  then show ?case by simp
next
  case (Cons p todo)
  show ?case
  proof (cases "idPhotoUrl p")
    case None
    with Cons.prems show ?thesis by auto
  next
    case (Some oldPath)
    show ?thesis
    proof (cases "rename e oldPath (up @ ''/'' @ basename oldPath)")
      case False
      with Some Cons.prems show ?thesis by (auto simp: Let_def)
    next
      case True
      with Some Cons.prems
      have "movePlayerFiles e up todo (moved @ [p\<lparr>idPhotoUrl := Some (up @ ''/'' @ basename oldPath)\<rparr>])
              (w\<lparr>disk := insert (up @ ''/'' @ basename oldPath) (disk w - {oldPath})\<rparr>) = (fin, ps, w')"
        by (simp add: Let_def)
      from Cons.IH [OF this] show ?thesis by simp
    qed
  qed
qed

lemma updateFilePathsWithTeamId_keeps:
  assumes "updateFilePathsWithTeamId e t (save t w) = (t', w')"
  shows "length (players t') = length (players t) \<and> teamId t' = teamId t \<and>
         teamName t' = teamName t \<and> registrationFee t' = registrationFee t \<and>
         paymentMethod t' = paymentMethod t \<and> coachEmail t' = coachEmail t \<and>
         (teams w' = teams w @ [t] \<or> teams w' = teams w @ [t']) \<and>
         cloud w' = cloud w \<and> outbox w' = outbox w"
proof (cases "mkdir e (teamUploadPath e t)")
  case False
  with assms have "t' = t" "w' = save t w" by (auto simp: updateFilePathsWithTeamId_def)
  then show ?thesis by (simp add: save_def)
next
  case True
  obtain fin ps w1 where m: "movePlayerFiles e (teamUploadPath e t) (players t) [] (save t w) = (fin, ps, w1)"
    by (cases "movePlayerFiles e (teamUploadPath e t) (players t) [] (save t w)")
  from movePlayerFiles_keeps [OF m]
  have k: "teams w1 = teams w @ [t]" "cloud w1 = cloud w" "outbox w1 = outbox w"
    "length ps = length (players t)"
    by (simp_all add: save_def)
  from assms True m have t': "t' = t\<lparr>players := ps\<rparr>"
    and "w' = w1 \<or> w' = saveAgain t' w1"
    by (auto simp: updateFilePathsWithTeamId_def Let_def split: if_splits)
  then have "(teams w' = teams w @ [t] \<or> teams w' = teams w @ [t']) \<and>
         cloud w' = cloud w \<and> outbox w' = outbox w"
  proof -
    from \<open>w' = w1 \<or> w' = saveAgain t' w1\<close> show ?thesis
    proof
      assume "w' = w1" with k show ?thesis by simp
    next
      assume "w' = saveAgain t' w1" with k show ?thesis by (simp add: saveAgain_def)
    qed
  qed
  with t' k show ?thesis by simp
qed

lemma registerTeam_disk_missing:
  "missingRequiredFields b \<or> missingEmergencyContact b \<Longrightarrow>
   registerTeam_disk e b fs w = (Inl MissingRequiredField, w)"
  by (auto simp: registerTeam_disk_def)

lemma registerTeam_disk_roster_failed:
  "\<not> missingRequiredFields b \<Longrightarrow> \<not> missingEmergencyContact b \<Longrightarrow>
   processPlayersData e b fs w = (Inl err, w1) \<Longrightarrow>
   registerTeam_disk e b fs w = (Inl err, w1)"
  by (simp add: registerTeam_disk_def)

lemma registerTeam_disk_roster_built:
  "\<not> missingRequiredFields b \<Longrightarrow> \<not> missingEmergencyContact b \<Longrightarrow>
   processPlayersData e b fs w = (Inr ps, w1) \<Longrightarrow>
   registerTeam_disk e b fs w =
     (if \<not> findOneResolves e then (Inl PersistenceError, unlinkRequestFiles e fs w1)
      else if findExistingTeam b w1 \<noteq> None then (Inl DuplicateRegistration, w1)
      else if \<not> validatePlayerAgesForTier e (builtTeam e b ps)
      then (Inl AgeEligibilityViolation, cleanupUploadedFiles e ps w1)
      else if \<not> saveResolves e (builtTeam e b ps)
      then (Inl PersistenceError, unlinkRequestFiles e fs w1)
      else
        (case updateFilePathsWithTeamId e (builtTeam e b ps) (save (builtTeam e b ps) w1) of
           (t', w3) \<Rightarrow>
             (Inr (teamId t', getPaymentInstructions e t'),
              sendAdminNotificationEmail e t' (sendTeamConfirmationEmail e t' w3))))"
  by (simp add: registerTeam_disk_def Let_def)

lemma registerTeam_disk_failed:
  assumes "registerTeam_disk e b fs w = (Inl err, w')"
  shows "teams w' = teams w \<and> cloud w' = cloud w \<and> outbox w' = outbox w"
proof (cases "missingRequiredFields b \<or> missingEmergencyContact b")
  case True
  from assms show ?thesis unfolding registerTeam_disk_missing [OF True] by simp
next
  case False
  then have nm: "\<not> missingRequiredFields b" "\<not> missingEmergencyContact b" by simp_all
  obtain r1 w1 where p: "processPlayersData e b fs w = (r1, w1)"
    by (cases "processPlayersData e b fs w")
  note k = processPlayersData_keeps [OF p]
  show ?thesis
  proof (cases r1)
    case (Inl err1)
    from assms have "w' = w1"
      unfolding registerTeam_disk_roster_failed [OF nm p [unfolded Inl]] by simp
    with k show ?thesis by simp
  next
    case (Inr ps)
    from assms
    have "w' = unlinkRequestFiles e fs w1 \<or> w' = w1 \<or> w' = cleanupUploadedFiles e ps w1"
      unfolding registerTeam_disk_roster_built [OF nm p [unfolded Inr]]
      by (simp split: if_splits prod.splits)
    then have "teams w' = teams w1 \<and> cloud w' = cloud w1 \<and> outbox w' = outbox w1"
    proof (elim disjE)
      assume "w' = unlinkRequestFiles e fs w1"
      then show ?thesis by (simp add: unlinkRequestFiles_keeps)
    next
      assume "w' = w1" then show ?thesis by simp
    next
      assume "w' = cleanupUploadedFiles e ps w1"
      then show ?thesis by (simp add: cleanupUploadedFiles_keeps)
    qed
    with k show ?thesis by simp
  qed
qed

lemma registerTeam_disk_succeeded:
  assumes "registerTeam_disk e b fs w = (Inr (tid, ins), w')"
  shows "\<exists>ps t'. \<not> missingRequiredFields b \<and> \<not> missingEmergencyContact b \<and>
           processPlayersData e b fs w = (Inr ps, w) \<and>
           findExistingTeam b w = None \<and> validatePlayerAgesForTier e (builtTeam e b ps) \<and>
           length (players t') = length ps \<and>
           (teams w' = teams w @ [builtTeam e b ps] \<or> teams w' = teams w @ [t']) \<and>
           tid = generateTeamId e \<and> ins = getPaymentInstructions e t' \<and> cloud w' = cloud w"
proof -
  from assms have nm: "\<not> missingRequiredFields b" "\<not> missingEmergencyContact b"
    using registerTeam_disk_missing [of b e fs w] by auto
  obtain r1 w1 where p: "processPlayersData e b fs w = (r1, w1)"
    by (cases "processPlayersData e b fs w")
  have "\<exists>ps. r1 = Inr ps"
  proof (cases r1)
    case (Inl err1)
    from assms show ?thesis
      unfolding registerTeam_disk_roster_failed [OF nm p [unfolded Inl]] by simp
  next
    case (Inr ps)
    then show ?thesis by simp
  qed
  then obtain ps where r1: "r1 = Inr ps" by blast
  from processPlayersData_ok [OF p [unfolded r1]] have w1: "w1 = w" by simp
  let ?t = "builtTeam e b ps"
  obtain t' w3 where u: "updateFilePathsWithTeamId e ?t (save ?t w) = (t', w3)"
    by (cases "updateFilePathsWithTeamId e ?t (save ?t w)")
  note uk = updateFilePathsWithTeamId_keeps [OF u]
  from assms u
  have w': "w' = sendAdminNotificationEmail e t' (sendTeamConfirmationEmail e t' w3)"
    and tid: "tid = teamId t'" and ins: "ins = getPaymentInstructions e t'"
    and dup: "findExistingTeam b w = None" and va: "validatePlayerAgesForTier e ?t"
    unfolding registerTeam_disk_roster_built [OF nm p [unfolded r1]] w1
    by (simp_all split: if_splits)
  have tid': "teamId ?t = generateTeamId e" "length (players ?t) = length ps"
    by (simp_all add: calculatePlayerAges_def newTeam_def)
  have "teams w' = teams w3" "cloud w' = cloud w3"
    by (simp_all add: w' sendAdminNotificationEmail_def sendTeamConfirmationEmail_def)
  with uk have "teams w' = teams w @ [?t] \<or> teams w' = teams w @ [t']" "cloud w' = cloud w"
    by simp_all
  with nm p r1 w1 dup va tid tid' ins uk show ?thesis by auto
qed

lemma builtTeam_fields:
  "players (builtTeam e b ps) = map (\<lambda>p. p\<lparr>ageAtRegistration := age (dateOfBirth p) (now e)\<rparr>) ps"
  "tier (builtTeam e b ps) = b_tier b"
  "teamId (builtTeam e b ps) = generateTeamId e"
  "registrationFee (builtTeam e b ps) = registrationFeeFor e (b_tier b)"
  "registrationStatus (builtTeam e b ps) = ''pending''"
  "paymentStatus (builtTeam e b ps) = ''pending''"
  "coachEmail (builtTeam e b ps) = toLowerCase (b_coachEmail b)"
  "teamName (builtTeam e b ps) = b_teamName b"
  "paymentMethod (builtTeam e b ps) = b_paymentMethod b"
  by (simp_all add: calculatePlayerAges_def newTeam_def)

lemma validatePlayerAgesForTier_builtTeam:
  "validatePlayerAgesForTier e (builtTeam e b ps) \<longleftrightarrow>
     (\<exists>minAge maxAge. ageRanges e (b_tier b) = Some (minAge, maxAge) \<and>
        (\<forall>p \<in> set ps. minAge \<le> age (dateOfBirth p) (now e) \<and> age (dateOfBirth p) (now e) \<le> maxAge))"
  unfolding validatePlayerAgesForTier_def builtTeam_fields
  by (auto simp: list_all_iff split: option.splits)

lemma cleanup_removes:
  "i \<in> set ups \<Longrightarrow> deleteImageFromCloudinary e i \<Longrightarrow> i \<notin> cloud (cleanupCloudinaryImages e ups w)"
  by (simp add: cleanupCloudinaryImages_def)

lemma cleanup_restores_run:
  assumes "\<forall>i \<in> set ups. deleteImageFromCloudinary e i" and "set ups \<inter> cloud w = {}"
    and "cloud w1 = cloud w \<union> set ups"
  shows "cloud (cleanupCloudinaryImages e ups w1) = cloud w"
proof -
  from assms(1) have "filter (deleteImageFromCloudinary e) ups = ups"
    by (simp add: filter_id_conv)
  with assms(2,3) show ?thesis
    by (auto simp: cleanupCloudinaryImages_def)
qed

lemma notifications_keep:
  "teams (sendAdminNotificationEmail e t (sendTeamConfirmationEmail e t w)) = teams w"
  "cloud (sendAdminNotificationEmail e t (sendTeamConfirmationEmail e t w)) = cloud w"
  "disk (sendAdminNotificationEmail e t (sendTeamConfirmationEmail e t w)) = disk w"
  by (simp_all add: sendAdminNotificationEmail_def sendTeamConfirmationEmail_def)

lemma updateFilePathsWithTeamId_tier:
  "updateFilePathsWithTeamId e t w = (t', w') \<Longrightarrow> tier t' = tier t"
  by (auto simp: updateFilePathsWithTeamId_def Let_def split: if_splits prod.splits)

lemma registerTeam_rollback:
  assumes "registerTeam e b fs w = (Inl err, w')" and "reliableStore e w"
  shows "cloud w' = cloud w \<and> teams w' = teams w \<and> disk w' = disk w"
proof -
  from registerTeam_failed [OF assms(1)] obtain new where
    k: "teams w' = teams w" "disk w' = disk w"
    and c: "cloud w' = (cloud w \<union> set new) - set (filter (deleteImageFromCloudinary e) new)"
    and n: "set new \<subseteq> uploadedIds e"
    by blast
  from assms(2) have "filter (deleteImageFromCloudinary e) new = new"
    by (simp add: reliableStore_def)
  with c have "cloud w' = cloud w - set new" by auto
  moreover from assms(2) n have "cloud w \<inter> set new = {}"
    by (auto simp: reliableStore_def)
  ultimately have "cloud w' = cloud w" by auto
  with k show ?thesis by simp
qed

subsection \<open>The failures that the handlers answer with\<close>

lemma collectPlayersWithCloudinary_error:
  "collectPlayersWithCloudinary e fs rq tf entries i acc ups w = (Inl err, w') \<Longrightarrow>
   (\<exists>j. err = MissingPlayerField j \<or> err = MissingIdentityPhoto j \<or> err = UploadFailure j)"
proof (induction entries arbitrary: i acc ups w rq)
  case Nil
  then show ?case by simp
next
  case (Cons x entries)
  show ?case
  proof (cases x)
    case None
    with Cons.prems show ?thesis by simp
  next
    case (Some rp)
    with Cons.prems Cons.IH show ?thesis
      by (fastforce split: if_splits option.splits)
  qed
qed

lemma collectPlayers_error:
  "collectPlayers fs entries i acc = Inl err \<Longrightarrow>
   (\<exists>j. err = MissingPlayerField j \<or> err = MissingIdentityPhoto j)"
proof (induction entries arbitrary: i acc)
  case Nil
  then show ?case by simp
next
  case (Cons x entries)
  show ?case
  proof (cases x)
    case None
    with Cons.prems show ?thesis by simp
  next
    case (Some rp)
    with Cons.prems Cons.IH show ?thesis
      by (fastforce split: if_splits option.splits)
  qed
qed

lemma processPlayersDataWithCloudinary_error:
  assumes "processPlayersDataWithCloudinary e b fs tid w = (Inl err, w')"
  shows "err \<noteq> InvalidTier \<and> err \<noteq> DuplicateRegistration \<and> err \<noteq> AgeEligibilityViolation \<and>
         err \<noteq> PersistenceError \<and> err \<noteq> MissingRequiredField"
proof (cases "b_players b")
  case None
  from assms show ?thesis
    unfolding processPlayersDataWithCloudinary_None [OF None] by simp
next
  case (Some entries)
  obtain r1 w1 where c: "collectPlayersWithCloudinary e fs (b_tier b = ''high_school'')
      (replace_non_alphanumeric (b_teamName b) @ ''_'' @ tid) entries 0 [] [] w = (r1, w1)"
    by (cases "collectPlayersWithCloudinary e fs (b_tier b = ''high_school'')
      (replace_non_alphanumeric (b_teamName b) @ ''_'' @ tid) entries 0 [] [] w")
  show ?thesis
  proof (cases r1)
    case (Inl err1)
    from assms have "err = err1"
      unfolding processPlayersDataWithCloudinary_Inl [OF Some c [unfolded Inl]] by simp
    with collectPlayersWithCloudinary_error [OF c [unfolded Inl]] show ?thesis by auto
  next
    case (Inr pr)
    obtain ps ups where pr: "pr = (ps, ups)" by (cases pr)
    from assms have "err = RosterSizeViolation (length ps)"
      unfolding processPlayersDataWithCloudinary_Inr [OF Some c [unfolded Inr pr]]
      by (simp split: if_splits)
    then show ?thesis by simp
  qed
qed

lemma processPlayersData_error:
  assumes "processPlayersData e b fs w = (Inl err, w')"
  shows "err \<noteq> InvalidTier \<and> err \<noteq> DuplicateRegistration \<and> err \<noteq> AgeEligibilityViolation \<and>
         err \<noteq> PersistenceError \<and> err \<noteq> MissingRequiredField"
proof (cases "b_players b")
  case None
  from assms show ?thesis unfolding processPlayersData_None [OF None] by simp
next
  case (Some entries)
  show ?thesis
  proof (cases "collectPlayers fs entries 0 []")
    case (Inl err1)
    from assms have "err = err1" unfolding processPlayersData_Inl [OF Some Inl] by simp
    with collectPlayers_error [OF Inl] show ?thesis by auto
  next
    case (Inr ps)
    from assms have "err = RosterSizeViolation (length ps)"
      unfolding processPlayersData_Inr [OF Some Inr] by (simp split: if_splits)
    then show ?thesis by simp
  qed
qed

lemma registerTeam_never_InvalidTier: "fst (registerTeam e b fs w) \<noteq> Inl InvalidTier"
proof (cases "missingRequiredFields b \<or> missingEmergencyContact b")
  case True
  show ?thesis unfolding registerTeam_missing [OF True] by simp
next
  case False
  then have nm: "\<not> missingRequiredFields b" "\<not> missingEmergencyContact b" by simp_all
  obtain r1 w1 where p: "processPlayersDataWithCloudinary e b fs (generateTeamId e) w = (r1, w1)"
    by (cases "processPlayersDataWithCloudinary e b fs (generateTeamId e) w")
  show ?thesis
  proof (cases r1)
    case (Inl err1)
    with processPlayersDataWithCloudinary_error [OF p [unfolded Inl]] show ?thesis
      unfolding registerTeam_roster_failed [OF nm p [unfolded Inl]] by simp
  next
    case (Inr pr)
    obtain ps ups where pr: "pr = (ps, ups)" by (cases pr)
    show ?thesis
      unfolding registerTeam_roster_built [OF nm p [unfolded Inr pr]] by simp
  qed
qed

lemma registerTeam_disk_never_InvalidTier: "fst (registerTeam_disk e b fs w) \<noteq> Inl InvalidTier"
proof (cases "missingRequiredFields b \<or> missingEmergencyContact b")
  case True
  show ?thesis unfolding registerTeam_disk_missing [OF True] by simp
next
  case False
  then have nm: "\<not> missingRequiredFields b" "\<not> missingEmergencyContact b" by simp_all
  obtain r1 w1 where p: "processPlayersData e b fs w = (r1, w1)"
    by (cases "processPlayersData e b fs w")
  show ?thesis
  proof (cases r1)
    case (Inl err1)
    with processPlayersData_error [OF p [unfolded Inl]] show ?thesis
      unfolding registerTeam_disk_roster_failed [OF nm p [unfolded Inl]] by simp
  next
    case (Inr ps)
    show ?thesis
      unfolding registerTeam_disk_roster_built [OF nm p [unfolded Inr]]
      by (simp split: prod.splits)
  qed
qed

subsection \<open>Failed submissions and the upload store\<close>

lemma registerTeam_disk_early_return:
  assumes "registerTeam_disk e b fs w = (Inl err, w')"
    and "err \<noteq> PersistenceError" and "err \<noteq> AgeEligibilityViolation"
    and "\<forall>n. err \<noteq> RosterSizeViolation n"
  shows "w' = w"
proof (cases "missingRequiredFields b \<or> missingEmergencyContact b")
  case True
  from assms(1) show ?thesis unfolding registerTeam_disk_missing [OF True] by simp
next
  case False
  then have nm: "\<not> missingRequiredFields b" "\<not> missingEmergencyContact b" by simp_all
  obtain r1 w1 where p: "processPlayersData e b fs w = (r1, w1)"
    by (cases "processPlayersData e b fs w")
  show ?thesis
  proof (cases r1)
    case (Inl err1)
    from assms(1) have e: "err1 = err" "w1 = w'"
      unfolding registerTeam_disk_roster_failed [OF nm p [unfolded Inl]] by simp_all
    show ?thesis
    proof (cases "b_players b")
      case None
      from p e show ?thesis unfolding processPlayersData_None [OF None] by simp
    next
      case (Some entries)
      show ?thesis
      proof (cases "collectPlayers fs entries 0 []")
        case Inl
        from p e show ?thesis unfolding processPlayersData_Inl [OF Some Inl] by simp
      next
        case (Inr ps)
        from p Inl e have "err = RosterSizeViolation (length ps)"
          unfolding processPlayersData_Inr [OF Some Inr] by (simp split: if_splits)
        with assms(4) show ?thesis by simp
      qed
    qed
  next
    case (Inr ps)
    from processPlayersData_ok [OF p [unfolded Inr]] have w1: "w1 = w" by simp
    from assms show ?thesis
      unfolding registerTeam_disk_roster_built [OF nm p [unfolded Inr]] w1
      by (simp split: if_splits prod.splits)
  qed
qed

lemma submit_disk_early_return:
  assumes "submit_disk e b fs w = (Inl err, w')"
    and "err \<noteq> PersistenceError" and "err \<noteq> AgeEligibilityViolation"
    and "\<forall>n. err \<noteq> RosterSizeViolation n"
  shows "disk w' = disk w \<union> set (map path fs) \<and> teams w' = teams w"
proof -
  from assms(1) have "registerTeam_disk e b fs (uploadAny fs w) = (Inl err, w')"
    by (simp add: submit_disk_def)
  from registerTeam_disk_early_return [OF this assms(2-4)] show ?thesis
    by (simp add: uploadAny_def)
qed

text \<open>
  C1. A failed submission is to leave the upload store and the Team collection as they
  were. The Cloudinary controller does so when the store carries out the deletions
  (\<open>registerTeam_rollback\<close>). The disk controller does not: whenever it fails for a missing
  field, a missing photo, an unreadable roster or a duplicate, every file that the
  middleware wrote is still on the disk (\<open>submit_disk_early_return\<close>). For the sample
  submission with the name of the fifth player left empty it answers that the player's
  fields are missing, and the five photos stay on the disk, which was empty before. The
  Cloudinary controller, on the same submission, uploads four photos, deletes them again
  and ends in the world it started from.
\<close>

theorem disk_controller_leaves_uploads:
  "fst (submit_disk sample_env nameless_body sample_files empty_world)
     = Inl (MissingPlayerField 4) \<and>
   disk (snd (submit_disk sample_env nameless_body sample_files empty_world))
     = set (map path sample_files) \<and>
   path (sample_file 0) \<in> disk (snd (submit_disk sample_env nameless_body sample_files empty_world)) \<and>
   disk empty_world = {} \<and>
   registerTeam sample_env nameless_body sample_files empty_world
     = (Inl (MissingPlayerField 4), empty_world)"
  by code_simp

subsection \<open>Age eligibility\<close>

lemma someAgeOutside_dates:
  "someAgeOutside e minAge maxAge ps \<longleftrightarrow>
     (\<exists>d \<in> set (map dateOfBirth ps). age d (now e) < minAge \<or> maxAge < age d (now e))"
  by (auto simp: someAgeOutside_def)

lemma builtTeam_dates: "map dateOfBirth (players (builtTeam e b ps)) = map dateOfBirth ps"
  by (simp add: builtTeam_fields)

lemma movePlayerFiles_dates:
  "movePlayerFiles e up todo moved w = (fin, ps, w') \<Longrightarrow>
   map dateOfBirth ps = map dateOfBirth moved @ map dateOfBirth todo"
proof (induction todo arbitrary: moved w)
  case Nil
  then show ?case by simp
next
  case (Cons p todo)
  show ?case
  proof (cases "idPhotoUrl p")
    case None
    with Cons.prems show ?thesis by auto
  next
    case (Some oldPath)
    show ?thesis
    proof (cases "rename e oldPath (up @ ''/'' @ basename oldPath)")
      case False
      with Some Cons.prems show ?thesis by (auto simp: Let_def)
    next
      case True
      with Some Cons.prems
      have "movePlayerFiles e up todo (moved @ [p\<lparr>idPhotoUrl := Some (up @ ''/'' @ basename oldPath)\<rparr>])
              (w\<lparr>disk := insert (up @ ''/'' @ basename oldPath) (disk w - {oldPath})\<rparr>) = (fin, ps, w')"
        by (simp add: Let_def)
      from Cons.IH [OF this] show ?thesis by simp
    qed
  qed
qed

lemma updateFilePathsWithTeamId_dates:
  assumes "updateFilePathsWithTeamId e t w = (t', w')"
  shows "map dateOfBirth (players t') = map dateOfBirth (players t)"
proof (cases "mkdir e (teamUploadPath e t)")
  case False
  with assms have "t' = t" by (auto simp: updateFilePathsWithTeamId_def)
  then show ?thesis by simp
next
  case True
  obtain fin ps w1 where m: "movePlayerFiles e (teamUploadPath e t) (players t) [] w = (fin, ps, w1)"
    by (cases "movePlayerFiles e (teamUploadPath e t) (players t) [] w")
  from assms True m have "t' = t\<lparr>players := ps\<rparr>"
    by (auto simp: updateFilePathsWithTeamId_def Let_def split: if_splits)
  with movePlayerFiles_dates [OF m] show ?thesis by simp
qed

text \<open>
  C6. The claim speaks of every submission with a player whose age lies outside the range
  of the declared tier. The age check is the fifth step of the handlers, so a submission
  that an earlier step turns down gets the failure of that step; and the disk controller
  unlinks, in its age branch, the photos of the roster. What holds: a submission that
  reaches the age check (the required fields are there, the roster is built, the lookup of
  a duplicate resolves and finds none) with a player whose age at the reference date lies
  outside the range of the declared tier fails with \<open>AgeEligibilityViolation\<close> and no Team
  is persisted. The Cloudinary controller asks for the deletion of every upload of the
  attempt: an upload whose deletion resolves is gone, and when these deletions all resolve
  (and the uploads were new to the store) the store is as it was. The disk controller
  unlinks the photo of every player of the roster; when the files of the request are
  exactly these photos and every unlink resolves, the disk is as it was. And whatever the
  earlier steps do, no submission persists a Team with a player whose age is outside the
  range: a submission that succeeds adds one Team, and all its ages are inside.
\<close>

theorem age_violation_rejects:
  assumes "ageRanges e (b_tier b) = Some (minAge, maxAge)"
  shows
    "(\<not> missingRequiredFields b \<and> \<not> missingEmergencyContact b \<and> findOneResolves e \<and>
      findExistingTeam b w = None \<and>
      processPlayersDataWithCloudinary e b fs (generateTeamId e) w = (Inr (ps, ups), w1) \<and>
      someAgeOutside e minAge maxAge ps \<longrightarrow>
        fst (registerTeam e b fs w) = Inl AgeEligibilityViolation \<and>
        teams (snd (registerTeam e b fs w)) = teams w \<and>
        (\<forall>i \<in> set ups. deleteImageFromCloudinary e i \<longrightarrow> i \<notin> cloud (snd (registerTeam e b fs w))) \<and>
        ((\<forall>i \<in> set ups. deleteImageFromCloudinary e i) \<and> set ups \<inter> cloud w = {} \<longrightarrow>
           cloud (snd (registerTeam e b fs w)) = cloud w)) \<and>
     (\<not> missingRequiredFields b \<and> \<not> missingEmergencyContact b \<and> findOneResolves e \<and>
      findExistingTeam b w = None \<and>
      processPlayersData e b fs (uploadAny fs w) = (Inr qs, w2) \<and>
      someAgeOutside e minAge maxAge qs \<longrightarrow>
        fst (submit_disk e b fs w) = Inl AgeEligibilityViolation \<and>
        teams (snd (submit_disk e b fs w)) = teams w \<and>
        (\<forall>p \<in> set qs. \<forall>f. idPhotoUrl p = Some f \<and> unlink e f \<longrightarrow> f \<notin> disk (snd (submit_disk e b fs w))) \<and>
        ((\<forall>f. unlink e f) \<and> set (map path fs) = set (List.map_filter idPhotoUrl qs) \<and>
         set (map path fs) \<inter> disk w = {} \<longrightarrow> disk (snd (submit_disk e b fs w)) = disk w)) \<and>
     (\<forall>r w'. registerTeam e b fs w = (Inr r, w') \<longrightarrow>
        (\<exists>t. teams w' = teams w @ [t] \<and> \<not> someAgeOutside e minAge maxAge (players t))) \<and>
     (\<forall>r w'. registerTeam_disk e b fs w = (Inr r, w') \<longrightarrow>
        (\<exists>t. teams w' = teams w @ [t] \<and> \<not> someAgeOutside e minAge maxAge (players t)))"
proof -
  have va: "validatePlayerAgesForTier e (builtTeam e b xs) \<longleftrightarrow> \<not> someAgeOutside e minAge maxAge xs"
    for xs
    using assms unfolding validatePlayerAgesForTier_builtTeam someAgeOutside_def
    by (auto simp: not_le)
  have cloudinary: "fst (registerTeam e b fs w) = Inl AgeEligibilityViolation \<and>
        teams (snd (registerTeam e b fs w)) = teams w \<and>
        (\<forall>i \<in> set ups. deleteImageFromCloudinary e i \<longrightarrow> i \<notin> cloud (snd (registerTeam e b fs w))) \<and>
        ((\<forall>i \<in> set ups. deleteImageFromCloudinary e i) \<and> set ups \<inter> cloud w = {} \<longrightarrow>
           cloud (snd (registerTeam e b fs w)) = cloud w)"
    if nm: "\<not> missingRequiredFields b" "\<not> missingEmergencyContact b"
      and fo: "findOneResolves e" and nd: "findExistingTeam b w = None"
      and p: "processPlayersDataWithCloudinary e b fs (generateTeamId e) w = (Inr (ps, ups), w1)"
      and o: "someAgeOutside e minAge maxAge ps"
  proof -
    note k = processPlayersDataWithCloudinary_keeps [OF p]
    note ok = processPlayersDataWithCloudinary_ok [OF p]
    from k nd have dup: "findExistingTeam b w1 = None"
      by (simp add: findExistingTeam_def)
    have r: "registerTeam e b fs w = (Inl AgeEligibilityViolation, cleanupCloudinaryImages e ups w1)"
      unfolding registerTeam_roster_built [OF nm p] using fo dup o by (simp add: va)
    from ok have "(\<forall>i \<in> set ups. deleteImageFromCloudinary e i) \<and> set ups \<inter> cloud w = {} \<longrightarrow>
        cloud (cleanupCloudinaryImages e ups w1) = cloud w"
      using cleanup_restores_run [of ups e w w1] by simp
    with k show ?thesis
      unfolding r by (simp add: cleanupCloudinaryImages_keeps(1) cleanup_removes)
  qed
  have disk: "fst (submit_disk e b fs w) = Inl AgeEligibilityViolation \<and>
        teams (snd (submit_disk e b fs w)) = teams w \<and>
        (\<forall>p \<in> set qs. \<forall>f. idPhotoUrl p = Some f \<and> unlink e f \<longrightarrow> f \<notin> disk (snd (submit_disk e b fs w))) \<and>
        ((\<forall>f. unlink e f) \<and> set (map path fs) = set (List.map_filter idPhotoUrl qs) \<and>
         set (map path fs) \<inter> disk w = {} \<longrightarrow> disk (snd (submit_disk e b fs w)) = disk w)"
    if nm: "\<not> missingRequiredFields b" "\<not> missingEmergencyContact b"
      and fo: "findOneResolves e" and nd: "findExistingTeam b w = None"
      and p: "processPlayersData e b fs (uploadAny fs w) = (Inr qs, w2)"
      and o: "someAgeOutside e minAge maxAge qs"
  proof -
    from processPlayersData_ok [OF p] have w2: "w2 = uploadAny fs w" by simp
    from nd have dup: "findExistingTeam b (uploadAny fs w) = None"
      by (simp add: findExistingTeam_def uploadAny_def)
    have r: "submit_disk e b fs w = (Inl AgeEligibilityViolation, cleanupUploadedFiles e qs (uploadAny fs w))"
      unfolding submit_disk_def registerTeam_disk_roster_built [OF nm p] w2
      using fo dup o by (simp add: va)
    have m: "f \<in> set (List.map_filter idPhotoUrl qs)" if "p \<in> set qs" "idPhotoUrl p = Some f" for p f
      using that by (force simp: map_filter_def)
    show ?thesis
      unfolding r by (auto simp: cleanupUploadedFiles_keeps uploadAny_def dest: m)
  qed
  have kept: "\<exists>t. teams w' = teams w @ [t] \<and> \<not> someAgeOutside e minAge maxAge (players t)"
    if r: "registerTeam e b fs w = (Inr r, w')" for r w'
  proof -
    obtain tid ins where "r = (tid, ins)" by (cases r)
    with registerTeam_succeeded [of e b fs w tid ins w'] r
    obtain xs where v: "validatePlayerAgesForTier e (builtTeam e b xs)"
      and t: "teams w' = teams w @ [builtTeam e b xs]"
      by blast
    from v have "\<not> someAgeOutside e minAge maxAge (players (builtTeam e b xs))"
      unfolding va someAgeOutside_dates builtTeam_dates .
    with t show ?thesis by blast
  qed
  have kept_disk: "\<exists>t. teams w' = teams w @ [t] \<and> \<not> someAgeOutside e minAge maxAge (players t)"
    if r: "registerTeam_disk e b fs w = (Inr r, w')" for r w'
  proof -
    obtain tid ins where rr: "r = (tid, ins)" by (cases r)
    from registerTeam_disk_succeeded [of e b fs w tid ins w'] r rr obtain xs where
      nm: "\<not> missingRequiredFields b" "\<not> missingEmergencyContact b"
      and p: "processPlayersData e b fs w = (Inr xs, w)"
      and v: "validatePlayerAgesForTier e (builtTeam e b xs)"
      by blast
    let ?t = "builtTeam e b xs"
    obtain t' w3 where u: "updateFilePathsWithTeamId e ?t (save ?t w) = (t', w3)"
      by (cases "updateFilePathsWithTeamId e ?t (save ?t w)")
    note uk = updateFilePathsWithTeamId_keeps [OF u]
    note ud = updateFilePathsWithTeamId_dates [OF u]
    from r u
    have w': "w' = sendAdminNotificationEmail e t' (sendTeamConfirmationEmail e t' w3)"
      unfolding registerTeam_disk_roster_built [OF nm p]
      by (simp_all split: if_splits)
    from uk have ts: "teams w' = teams w @ [?t] \<or> teams w' = teams w @ [t']"
      unfolding w' by (simp add: notifications_keep)
    from v have a: "\<not> someAgeOutside e minAge maxAge (players ?t)"
      unfolding va someAgeOutside_dates builtTeam_dates .
    then have "\<not> someAgeOutside e minAge maxAge (players t')"
      unfolding someAgeOutside_dates ud .
    with a ts show ?thesis by blast
  qed
  from cloudinary disk kept kept_disk show ?thesis by blast
qed

theorem age_violation_rejects_witness:
  "registerTeam sample_env overage_body sample_files empty_world
     = (Inl AgeEligibilityViolation, empty_world) \<and>
   fst (submit_disk sample_env overage_body sample_files empty_world)
     = Inl AgeEligibilityViolation \<and>
   teams (snd (submit_disk sample_env overage_body sample_files empty_world)) = [] \<and>
   disk (snd (submit_disk sample_env overage_body sample_files empty_world)) = {} \<and>
   map (\<lambda>t. someAgeOutside sample_env 11 13 (players t))
     (teams (snd (registerTeam sample_env sample_body sample_files empty_world))) = [False] \<and>
   map (\<lambda>t. someAgeOutside sample_env 11 13 (players t))
     (teams (snd (registerTeam_disk sample_env sample_body sample_files empty_world))) = [False]"
proof -
  let ?X = "processPlayersDataWithCloudinary sample_env overage_body sample_files
              (generateTeamId sample_env) empty_world"
  let ?Y = "processPlayersData sample_env overage_body sample_files
              (uploadAny sample_files empty_world)"
  let ?R = "registerTeam sample_env sample_body sample_files empty_world"
  let ?D = "registerTeam_disk sample_env sample_body sample_files empty_world"
  let ?ps = "fst (projr (fst ?X))"
  let ?qs = "projr (fst ?Y)"
  have i: "\<not> isl (fst ?X)" "\<not> isl (fst ?Y)" "\<not> isl (fst ?R)" "\<not> isl (fst ?D)" by code_simp+
  then have X: "?X = (Inr (?ps, snd (projr (fst ?X))), snd ?X)"
    and Y: "?Y = (Inr ?qs, snd ?Y)"
    and R: "?R = (Inr (projr (fst ?R)), snd ?R)"
    and D: "?D = (Inr (projr (fst ?D)), snd ?D)"
    by (simp_all add: prod_eq_iff)
  have h: "\<not> missingRequiredFields overage_body" "\<not> missingEmergencyContact overage_body"
    "findOneResolves sample_env" "findExistingTeam overage_body empty_world = None"
    by code_simp+
  have h5: "ageRanges sample_env (b_tier overage_body) = Some (11, 13)"
    "ageRanges sample_env (b_tier sample_body) = Some (11, 13)" by code_simp+
  have h6: "someAgeOutside sample_env 11 13 ?ps" "someAgeOutside sample_env 11 13 ?qs"
    by code_simp+
  have r: "(\<forall>i \<in> set (snd (projr (fst ?X))). deleteImageFromCloudinary sample_env i) \<and>
      set (snd (projr (fst ?X))) \<inter> cloud empty_world = {}" by code_simp
  have u: "(\<forall>f. unlink sample_env f)" by (simp add: sample_env_def)
  have f: "set (map path sample_files) = set (List.map_filter idPhotoUrl ?qs)" by code_simp
  have d: "set (map path sample_files) \<inter> disk empty_world = {}" by (simp add: empty_world_def)
  note t = age_violation_rejects [OF h5(1), where fs = sample_files and w = empty_world
      and ps = ?ps and ups = "snd (projr (fst ?X))" and ?w1.0 = "snd ?X" and qs = ?qs
      and ?w2.0 = "snd ?Y"]
  from t X r h h6 have c: "fst (registerTeam sample_env overage_body sample_files empty_world)
       = Inl AgeEligibilityViolation"
    "teams (snd (registerTeam sample_env overage_body sample_files empty_world)) = teams empty_world"
    "cloud (snd (registerTeam sample_env overage_body sample_files empty_world)) = cloud empty_world"
    by blast+
  from t Y u f d h h6 have k: "fst (submit_disk sample_env overage_body sample_files empty_world)
       = Inl AgeEligibilityViolation"
    "teams (snd (submit_disk sample_env overage_body sample_files empty_world)) = teams empty_world"
    "disk (snd (submit_disk sample_env overage_body sample_files empty_world)) = disk empty_world"
    by blast+
  note s = age_violation_rejects [OF h5(2), where fs = sample_files and w = empty_world]
  from s R obtain t1 where t1: "teams (snd ?R) = teams empty_world @ [t1]"
    "\<not> someAgeOutside sample_env 11 13 (players t1)" by blast
  from s D obtain t2 where t2: "teams (snd ?D) = teams empty_world @ [t2]"
    "\<not> someAgeOutside sample_env 11 13 (players t2)" by blast
  have rest: "disk (snd (registerTeam sample_env overage_body sample_files empty_world)) = disk empty_world"
    "outbox (snd (registerTeam sample_env overage_body sample_files empty_world)) = outbox empty_world"
    by code_simp+
  from c rest have "snd (registerTeam sample_env overage_body sample_files empty_world) = empty_world"
    by simp
  with c(1) k t1 t2 show ?thesis by (simp add: prod_eq_iff empty_world_def)
qed

text \<open>
  Four players, the last of them twenty years old at the reference date, for a tier of
  the ages 11 to 13: both controllers answer with the size of the roster, not with the
  age. And the sample submission with an overage player and one photo more than the
  roster has players: the Cloudinary controller, which uploads the photos of the roster
  only, ends in the world it started from, while the disk controller leaves the photo
  that belongs to no player of the roster on the disk.
\<close>

theorem age_violation_counterexample:
  "ageRanges sample_env (b_tier short_overage_body) = Some (11, 13) \<and>
   sample_player ''Dan'' 2005 \<in> set (the (b_players short_overage_body)) \<and>
   age \<lparr>year = 2005, month = 5, day = 20\<rparr> (now sample_env) = 20 \<and>
   registerTeam sample_env short_overage_body four_files empty_world
     = (Inl (RosterSizeViolation 4), empty_world) \<and>
   fst (submit_disk sample_env short_overage_body four_files empty_world)
     = Inl (RosterSizeViolation 4) \<and>
   registerTeam sample_env overage_body stray_files empty_world
     = (Inl AgeEligibilityViolation, empty_world) \<and>
   fst (submit_disk sample_env overage_body stray_files empty_world)
     = Inl AgeEligibilityViolation \<and>
   disk (snd (submit_disk sample_env overage_body stray_files empty_world))
     = {path (sample_file 7)}"
  by code_simp

subsection \<open>Identity photos\<close>

lemma collectPlayersWithCloudinary_append:
  "None \<notin> set pre \<Longrightarrow>
   collectPlayersWithCloudinary e fs rq tf pre i acc ups w = (Inr (acc', ups'), w') \<Longrightarrow>
   collectPlayersWithCloudinary e fs rq tf (pre @ rest) i acc ups w =
   collectPlayersWithCloudinary e fs rq tf rest (i + length pre) acc' ups' w'"
proof (induction pre arbitrary: i acc ups w rq)
  case Nil
  then show ?case by simp
next
  case (Cons x pre)
  from Cons.prems(1) obtain rp where x: "x = Some rp" and n: "None \<notin> set pre"
    by (cases x) auto
  show ?case
  proof (cases "findPlayerFile fs i")
    case None
    with Cons.prems(2) x have v: "\<not> (falsy (raw_playerName rp) \<or> raw_dateOfBirth rp = None)" "\<not> rq"
      by (auto split: if_splits)
    with None x Cons.prems(2) obtain a where
      "collectPlayersWithCloudinary e fs rq tf pre (i + 1) a ups w = (Inr (acc', ups'), w')"
      and "collectPlayersWithCloudinary e fs rq tf ((x # pre) @ rest) i acc ups w =
           collectPlayersWithCloudinary e fs rq tf (pre @ rest) (i + 1) a ups w"
      by auto
    with Cons.IH [OF n] show ?thesis by simp
  next
    case (Some f)
    with Cons.prems(2) x have v: "\<not> (falsy (raw_playerName rp) \<or> raw_dateOfBirth rp = None)"
      by (auto split: if_splits)
    with Some x Cons.prems(2) obtain res where
      u: "uploadImageToCloudinary e (buffer f) (playerFolder tf (raw_playerName rp) i) = Some res"
      by (cases "uploadImageToCloudinary e (buffer f) (playerFolder tf (raw_playerName rp) i)") auto
    with v Some x Cons.prems(2) obtain a where
      "collectPlayersWithCloudinary e fs rq tf pre (i + 1) a (ups @ [public_id res])
         (w\<lparr>cloud := insert (public_id res) (cloud w)\<rparr>) = (Inr (acc', ups'), w')"
      and "collectPlayersWithCloudinary e fs rq tf ((x # pre) @ rest) i acc ups w =
           collectPlayersWithCloudinary e fs rq tf (pre @ rest) (i + 1) a (ups @ [public_id res])
             (w\<lparr>cloud := insert (public_id res) (cloud w)\<rparr>)"
      by auto
    with Cons.IH [OF n] show ?thesis by simp
  qed
qed

lemma collectPlayers_append:
  "None \<notin> set pre \<Longrightarrow> collectPlayers fs pre i acc = Inr acc' \<Longrightarrow>
   collectPlayers fs (pre @ rest) i acc = collectPlayers fs rest (i + length pre) acc'"
proof (induction pre arbitrary: i acc)
  case Nil
  then show ?case by simp
next
  case (Cons x pre)
  from Cons.prems(1) obtain rp where x: "x = Some rp" and n: "None \<notin> set pre"
    by (cases x) auto
  from Cons.prems(2) x obtain f where f: "findPlayerFile fs i = Some f"
    and v: "\<not> (falsy (raw_playerName rp) \<or> raw_dateOfBirth rp = None)"
    by (cases "findPlayerFile fs i") (auto split: if_splits)
  with x Cons.prems(2) obtain a where
    r: "collectPlayers fs pre (i + 1) a = Inr acc'"
    and s: "collectPlayers fs ((x # pre) @ rest) i acc = collectPlayers fs (pre @ rest) (i + 1) a"
    by auto
  note s
  also have "collectPlayers fs (pre @ rest) (i + 1) a =
      collectPlayers fs rest (i + 1 + length pre) acc'"
    by (rule Cons.IH [OF n r])
  finally show ?case by simp
qed

lemma collectPlayersWithCloudinary_photo_error:
  "collectPlayersWithCloudinary e fs rq tf entries i acc ups w = (Inl (MissingIdentityPhoto j), w')
   \<Longrightarrow> rq \<and> findPlayerFile fs j = None"
proof (induction entries arbitrary: i acc ups w)
  case Nil
  then show ?case by simp
next
  case (Cons x entries)
  show ?case
  proof (cases x)
    case None
    with Cons.prems show ?thesis by simp
  next
    case (Some rp)
    with Cons.prems Cons.IH show ?thesis
      by (fastforce split: if_splits option.splits)
  qed
qed

lemma collectPlayersWithCloudinary_unreferenced:
  "collectPlayersWithCloudinary e fs rq tf entries i acc ups w = (Inr (ps, ups'), w') \<Longrightarrow>
   length acc = i \<Longrightarrow> \<forall>j < length acc. unreferenced fs j (acc ! j) \<Longrightarrow>
   \<forall>j < length ps. unreferenced fs j (ps ! j)"
proof (induction entries arbitrary: i acc ups w)
  case Nil
  then show ?case by simp
next
  case (Cons x entries)
  show ?case
  proof (cases x)
    case None
    with Cons.prems show ?thesis by simp
  next
    case (Some rp)
    with Cons.prems(1) have v: "\<not> (falsy (raw_playerName rp) \<or> raw_dateOfBirth rp = None)"
      by (auto split: if_splits)
    show ?thesis
    proof (cases "findPlayerFile fs i")
      case None
      let ?p = "\<lparr>playerName = trim (raw_playerName rp), dateOfBirth = the (raw_dateOfBirth rp),
                 idPhotoUrl = None, idPhotoPublicId = None, idPhotoOriginalName = None,
                 ageAtRegistration = 0\<rparr>"
      from None v \<open>x = Some rp\<close> Cons.prems(1)
      have r: "collectPlayersWithCloudinary e fs rq tf entries (i + 1) (acc @ [?p]) ups w
                 = (Inr (ps, ups'), w')"
        by (auto split: if_splits)
      have "\<forall>j < length (acc @ [?p]). unreferenced fs j ((acc @ [?p]) ! j)"
        using Cons.prems(2,3) by (auto simp: nth_append unreferenced_def)
      with Cons.IH [OF r] Cons.prems(2) show ?thesis by simp
    next
      case (Some f)
      with v \<open>x = Some rp\<close> Cons.prems(1) obtain res where
        u: "uploadImageToCloudinary e (buffer f) (playerFolder tf (raw_playerName rp) i) = Some res"
        by (cases "uploadImageToCloudinary e (buffer f) (playerFolder tf (raw_playerName rp) i)") auto
      let ?p = "\<lparr>playerName = trim (raw_playerName rp), dateOfBirth = the (raw_dateOfBirth rp),
                 idPhotoUrl = or_null (secure_url res), idPhotoPublicId = or_null (public_id res),
                 idPhotoOriginalName = or_null (originalname f), ageAtRegistration = 0\<rparr>"
      from u Some v \<open>x = Some rp\<close> Cons.prems(1)
      have r: "collectPlayersWithCloudinary e fs rq tf entries (i + 1) (acc @ [?p])
                 (ups @ [public_id res]) (w\<lparr>cloud := insert (public_id res) (cloud w)\<rparr>)
                 = (Inr (ps, ups'), w')"
        by auto
      have "\<forall>j < length (acc @ [?p]). unreferenced fs j ((acc @ [?p]) ! j)"
        using Cons.prems(2,3) Some by (auto simp: nth_append unreferenced_def less_Suc_eq)
      with Cons.IH [OF r] Cons.prems(2) show ?thesis by simp
    qed
  qed
qed

lemma processPlayersDataWithCloudinary_photo_error:
  assumes "processPlayersDataWithCloudinary e b fs tid w = (Inl (MissingIdentityPhoto j), w')"
  shows "b_tier b = ''high_school'' \<and> findPlayerFile fs j = None"
proof (cases "b_players b")
  case None
  from assms show ?thesis
    unfolding processPlayersDataWithCloudinary_None [OF None] by simp
next
  case (Some entries)
  obtain r1 w1 where c: "collectPlayersWithCloudinary e fs (b_tier b = ''high_school'')
      (replace_non_alphanumeric (b_teamName b) @ ''_'' @ tid) entries 0 [] [] w = (r1, w1)"
    by (cases "collectPlayersWithCloudinary e fs (b_tier b = ''high_school'')
      (replace_non_alphanumeric (b_teamName b) @ ''_'' @ tid) entries 0 [] [] w")
  show ?thesis
  proof (cases r1)
    case (Inl err1)
    from assms have "err1 = MissingIdentityPhoto j"
      unfolding processPlayersDataWithCloudinary_Inl [OF Some c [unfolded Inl]] by simp
    with collectPlayersWithCloudinary_photo_error [OF c [unfolded Inl this]] show ?thesis
      by simp
  next
    case (Inr pr)
    obtain ps ups where pr: "pr = (ps, ups)" by (cases pr)
    from assms show ?thesis
      unfolding processPlayersDataWithCloudinary_Inr [OF Some c [unfolded Inr pr]]
      by (simp split: if_splits)
  qed
qed

lemma processPlayersDataWithCloudinary_unreferenced:
  assumes "processPlayersDataWithCloudinary e b fs tid w = (Inr (ps, ups), w')"
  shows "\<forall>j < length ps. unreferenced fs j (ps ! j)"
proof (cases "b_players b")
  case None
  from assms show ?thesis
    unfolding processPlayersDataWithCloudinary_None [OF None] by simp
next
  case (Some entries)
  obtain r1 w1 where c: "collectPlayersWithCloudinary e fs (b_tier b = ''high_school'')
      (replace_non_alphanumeric (b_teamName b) @ ''_'' @ tid) entries 0 [] [] w = (r1, w1)"
    by (cases "collectPlayersWithCloudinary e fs (b_tier b = ''high_school'')
      (replace_non_alphanumeric (b_teamName b) @ ''_'' @ tid) entries 0 [] [] w")
  show ?thesis
  proof (cases r1)
    case (Inl err1)
    from assms show ?thesis
      unfolding processPlayersDataWithCloudinary_Inl [OF Some c [unfolded Inl]] by simp
  next
    case (Inr pr)
    obtain ps1 ups1 where pr: "pr = (ps1, ups1)" by (cases pr)
    from assms have "ps1 = ps"
      unfolding processPlayersDataWithCloudinary_Inr [OF Some c [unfolded Inr pr]]
      by (simp split: if_splits)
    with collectPlayersWithCloudinary_unreferenced [OF c [unfolded Inr pr]] show ?thesis
      by simp
  qed
qed

text \<open>
  C4. The claim is that a photo is called for if and only if the tier is the high-school
  tier. That is how the Cloudinary controller works; the disk controller calls for a
  photo whatever the tier. What holds instead, for a submission with all required
  fields: in the Cloudinary controller with the tier \<^verbatim>\<open>high_school\<close>, the first player
  that the loop reaches (the entries before are accepted) who has a name and a date of
  birth but no file under the field name of the index makes the submission fail with
  \<open>MissingIdentityPhoto\<close> of that index; with any other tier no submission fails with
  \<open>MissingIdentityPhoto\<close>; and in a Team that the Cloudinary controller persists, a player
  without such a file has no photo reference. In the disk controller the first such
  player makes the submission fail with \<open>MissingIdentityPhoto\<close> of the index for every
  tier.
\<close>

theorem identity_photo_required_by_tier:
  assumes "\<not> missingRequiredFields b" and "\<not> missingEmergencyContact b"
  shows
    "(b_tier b = ''high_school'' \<and> b_players b = Some (pre @ Some rp # rest) \<and> None \<notin> set pre \<and>
      collectPlayersWithCloudinary e fs True
        (replace_non_alphanumeric (b_teamName b) @ ''_'' @ generateTeamId e) pre 0 [] [] w
        = (Inr (acc, ups), w1) \<and>
      \<not> falsy (raw_playerName rp) \<and> raw_dateOfBirth rp \<noteq> None \<and>
      findPlayerFile fs (length pre) = None \<longrightarrow>
        fst (registerTeam e b fs w) = Inl (MissingIdentityPhoto (length pre)) \<and>
        teams (snd (registerTeam e b fs w)) = teams w) \<and>
     (b_tier b \<noteq> ''high_school'' \<longrightarrow>
        (\<forall>j. fst (registerTeam e b fs w) \<noteq> Inl (MissingIdentityPhoto j))) \<and>
     (\<forall>r w'. registerTeam e b fs w = (Inr r, w') \<longrightarrow>
        (\<exists>t. teams w' = teams w @ [t] \<and>
             (\<forall>j < length (players t). unreferenced fs j (players t ! j)))) \<and>
     (b_players b = Some (pre @ Some rp # rest) \<and> None \<notin> set pre \<and>
      collectPlayers fs pre 0 [] = Inr acc' \<and>
      \<not> falsy (raw_playerName rp) \<and> raw_dateOfBirth rp \<noteq> None \<and>
      findPlayerFile fs (length pre) = None \<longrightarrow>
        fst (registerTeam_disk e b fs w) = Inl (MissingIdentityPhoto (length pre)) \<and>
        teams (snd (registerTeam_disk e b fs w)) = teams w)"
proof -
  let ?tf = "replace_non_alphanumeric (b_teamName b) @ ''_'' @ generateTeamId e"
  have 1: "fst (registerTeam e b fs w) = Inl (MissingIdentityPhoto (length pre)) \<and>
        teams (snd (registerTeam e b fs w)) = teams w"
    if hs: "b_tier b = ''high_school''" and en: "b_players b = Some (pre @ Some rp # rest)"
      and n: "None \<notin> set pre"
      and c: "collectPlayersWithCloudinary e fs True ?tf pre 0 [] [] w = (Inr (acc, ups), w1)"
      and v: "\<not> falsy (raw_playerName rp)" "raw_dateOfBirth rp \<noteq> None"
      and f: "findPlayerFile fs (length pre) = None"
  proof -
    have "collectPlayersWithCloudinary e fs True ?tf (pre @ Some rp # rest) 0 [] [] w =
        collectPlayersWithCloudinary e fs True ?tf (Some rp # rest) (0 + length pre) acc ups w1"
      by (rule collectPlayersWithCloudinary_append [OF n c])
    also have "\<dots> = (Inl (MissingIdentityPhoto (length pre)), cleanupCloudinaryImages e ups w1)"
      using v f by simp
    finally have "collectPlayersWithCloudinary e fs (b_tier b = ''high_school'') ?tf
        (pre @ Some rp # rest) 0 [] [] w
        = (Inl (MissingIdentityPhoto (length pre)), cleanupCloudinaryImages e ups w1)"
      using hs by simp
    from processPlayersDataWithCloudinary_Inl [OF en this]
    have p: "processPlayersDataWithCloudinary e b fs (generateTeamId e) w =
        (Inl (MissingIdentityPhoto (length pre)), cleanupCloudinaryImages e ups w1)" .
    from processPlayersDataWithCloudinary_keeps [OF p] show ?thesis
      unfolding registerTeam_roster_failed [OF assms p] by simp
  qed
  have 2: "fst (registerTeam e b fs w) \<noteq> Inl (MissingIdentityPhoto j)"
    if nhs: "b_tier b \<noteq> ''high_school''" for j
  proof
    assume a: "fst (registerTeam e b fs w) = Inl (MissingIdentityPhoto j)"
    obtain r1 w1 where p: "processPlayersDataWithCloudinary e b fs (generateTeamId e) w = (r1, w1)"
      by (cases "processPlayersDataWithCloudinary e b fs (generateTeamId e) w")
    show False
    proof (cases r1)
      case (Inl err1)
      from a have "err1 = MissingIdentityPhoto j"
        unfolding registerTeam_roster_failed [OF assms p [unfolded Inl]] by simp
      with processPlayersDataWithCloudinary_photo_error [OF p [unfolded Inl this]] nhs
      show False by simp
    next
      case (Inr pr)
      obtain ps ups where pr: "pr = (ps, ups)" by (cases pr)
      from a show False
        unfolding registerTeam_roster_built [OF assms p [unfolded Inr pr]]
        by (simp split: if_splits)
    qed
  qed
  have 3: "\<exists>t. teams w' = teams w @ [t] \<and>
             (\<forall>j < length (players t). unreferenced fs j (players t ! j))"
    if r: "registerTeam e b fs w = (Inr r, w')" for r w'
  proof -
    obtain tid ins where "r = (tid, ins)" by (cases r)
    with registerTeam_succeeded [of e b fs w tid ins w'] r
    obtain ps ups w1 where
      p: "processPlayersDataWithCloudinary e b fs (generateTeamId e) w = (Inr (ps, ups), w1)"
      and t: "teams w' = teams w @ [builtTeam e b ps]"
      by blast
    from processPlayersDataWithCloudinary_unreferenced [OF p]
    have "\<forall>j < length (players (builtTeam e b ps)).
            unreferenced fs j (players (builtTeam e b ps) ! j)"
      by (simp add: builtTeam_fields unreferenced_def)
    with t show ?thesis by blast
  qed
  have 4: "fst (registerTeam_disk e b fs w) = Inl (MissingIdentityPhoto (length pre)) \<and>
        teams (snd (registerTeam_disk e b fs w)) = teams w"
    if en: "b_players b = Some (pre @ Some rp # rest)" and n: "None \<notin> set pre"
      and c: "collectPlayers fs pre 0 [] = Inr acc'"
      and v: "\<not> falsy (raw_playerName rp)" "raw_dateOfBirth rp \<noteq> None"
      and f: "findPlayerFile fs (length pre) = None"
  proof -
    have "collectPlayers fs (pre @ Some rp # rest) 0 [] =
        collectPlayers fs (Some rp # rest) (0 + length pre) acc'"
      by (rule collectPlayers_append [OF n c])
    also have "\<dots> = Inl (MissingIdentityPhoto (length pre))"
      using v f by simp
    finally have p: "processPlayersData e b fs w = (Inl (MissingIdentityPhoto (length pre)), w)"
      by (rule processPlayersData_Inl [OF en])
    show ?thesis
      unfolding registerTeam_disk_roster_failed [OF assms p] by simp
  qed
  from 1 2 3 4 show ?thesis by blast
qed

theorem identity_photo_required_by_tier_witness:
  "fst (registerTeam sample_env high_school_body four_files empty_world)
     = Inl (MissingIdentityPhoto 4) \<and>
   snd (registerTeam sample_env high_school_body four_files empty_world) = empty_world \<and>
   \<not> isl (fst (registerTeam sample_env sample_body four_files empty_world)) \<and>
   map idPhotoUrl (players (last (teams (snd
       (registerTeam sample_env sample_body four_files empty_world))))) ! 4 = None \<and>
   fst (registerTeam_disk sample_env high_school_body four_files empty_world)
     = Inl (MissingIdentityPhoto 4)"
proof -
  let ?pre = "[sample_player ''Ali'' 2013, sample_player ''Ben'' 2013, sample_player ''Cal'' 2013,
               sample_player ''Dan'' 2013]"
  let ?rp = "the (sample_player ''Eli'' 2013)"
  let ?b = high_school_body
  let ?C = "collectPlayersWithCloudinary sample_env four_files True
        (replace_non_alphanumeric (b_teamName ?b) @ ''_'' @ generateTeamId sample_env)
        ?pre 0 [] [] empty_world"
  let ?D = "collectPlayers four_files ?pre 0 []"
  let ?R = "registerTeam sample_env sample_body four_files empty_world"
  have h: "\<not> missingRequiredFields ?b" "\<not> missingEmergencyContact ?b"
    "\<not> missingRequiredFields sample_body" "\<not> missingEmergencyContact sample_body"
    by code_simp+
  have a: "b_tier ?b = ''high_school''" "b_players ?b = Some (?pre @ Some ?rp # [])"
    "None \<notin> set ?pre" "\<not> falsy (raw_playerName ?rp)" "raw_dateOfBirth ?rp \<noteq> None"
    "findPlayerFile four_files (length ?pre) = None" "length ?pre = 4"
    "b_tier sample_body \<noteq> ''high_school''"
    by code_simp+
  have i: "\<not> isl (fst ?C)" "\<not> isl ?D" "\<not> isl (fst ?R)" by code_simp+
  then have C: "?C = (Inr (fst (projr (fst ?C)), snd (projr (fst ?C))), snd ?C)"
    and D: "?D = Inr (projr ?D)"
    and R: "?R = (Inr (projr (fst ?R)), snd ?R)"
    by (simp_all add: prod_eq_iff)
  note t = identity_photo_required_by_tier [OF h(1,2), where e = sample_env and fs = four_files
      and w = empty_world and pre = ?pre and rp = ?rp and rest = "[]"]
  from t a C D
  have 1: "fst (registerTeam sample_env ?b four_files empty_world)
      = Inl (MissingIdentityPhoto (length ?pre))"
    and 4: "fst (registerTeam_disk sample_env ?b four_files empty_world)
      = Inl (MissingIdentityPhoto (length ?pre))"
    by blast+
  note s = identity_photo_required_by_tier [OF h(3,4), where e = sample_env and fs = four_files
      and w = empty_world]
  from s R obtain t where
    t: "teams (snd ?R) = teams empty_world @ [t]"
      "\<forall>j < length (players t). unreferenced four_files j (players t ! j)"
    by blast
  have l: "length (players (last (teams (snd ?R)))) = 5" "findPlayerFile four_files 4 = None"
    "snd (registerTeam sample_env ?b four_files empty_world) = empty_world"
    by code_simp+
  from t(1) have "last (teams (snd ?R)) = t" by simp
  with l(1) have "4 < length (players t)" by simp
  with t(2) have "unreferenced four_files 4 (players t ! 4)" by blast
  with l(2) have "idPhotoUrl (players t ! 4) = None" by (simp add: unreferenced_def)
  with \<open>last (teams (snd ?R)) = t\<close> \<open>4 < length (players t)\<close>
  have "map idPhotoUrl (players (last (teams (snd ?R)))) ! 4 = None" by simp
  with 1 4 i a(7) l(3) show ?thesis by simp
qed

text \<open>
  The sample submission (tier \<^verbatim>\<open>middle\<close>) with no photo for the fifth player: the disk
  controller turns it down for the missing photo, the Cloudinary controller accepts it.
\<close>

theorem photo_required_for_every_tier_on_disk:
  "b_tier sample_body = ''middle'' \<and>
   findPlayerFile four_files 4 = None \<and>
   fst (submit_disk sample_env sample_body four_files empty_world)
     = Inl (MissingIdentityPhoto 4) \<and>
   \<not> isl (fst (registerTeam sample_env sample_body four_files empty_world))"
  by code_simp

subsection \<open>Duplicate registrations\<close>

text \<open>
  C2. The claim is that a duplicate is turned down before anything else happens: no file
  stored, no roster built. Both controllers build the roster first, and the Cloudinary
  controller uploads the photos while it does; the duplicate check comes after, and its
  branch deletes the uploads again. What holds instead: a submission with all required
  fields whose roster is built, for which a pending, approved or waitlisted team with the
  same coach email (in lower case) and team name exists, fails with
  \<open>DuplicateRegistration\<close> and persists no Team. In the Cloudinary controller the uploads
  of the roster are in the store when the check is made; the controller then asks for
  the deletion of each, and when the deletions resolve (the uploads being new to the
  store) the store is as it was.
\<close>

theorem duplicate_rejected_after_roster:
  assumes "\<not> missingRequiredFields b" and "\<not> missingEmergencyContact b"
    and "findOneResolves e" and "findExistingTeam b w \<noteq> None"
  shows
    "(processPlayersDataWithCloudinary e b fs (generateTeamId e) w = (Inr (ps, ups), w1) \<longrightarrow>
        fst (registerTeam e b fs w) = Inl DuplicateRegistration \<and>
        teams (snd (registerTeam e b fs w)) = teams w \<and>
        cloud w1 = cloud w \<union> set ups \<and>
        (\<forall>i \<in> set ups. deleteImageFromCloudinary e i \<longrightarrow> i \<notin> cloud (snd (registerTeam e b fs w))) \<and>
        ((\<forall>i \<in> set ups. deleteImageFromCloudinary e i) \<and> set ups \<inter> cloud w = {} \<longrightarrow>
           cloud (snd (registerTeam e b fs w)) = cloud w)) \<and>
     (processPlayersData e b fs w = (Inr qs, w2) \<longrightarrow>
        fst (registerTeam_disk e b fs w) = Inl DuplicateRegistration \<and>
        teams (snd (registerTeam_disk e b fs w)) = teams w)"
proof -
  have cloudinary: "fst (registerTeam e b fs w) = Inl DuplicateRegistration \<and>
        teams (snd (registerTeam e b fs w)) = teams w \<and>
        cloud w1 = cloud w \<union> set ups \<and>
        (\<forall>i \<in> set ups. deleteImageFromCloudinary e i \<longrightarrow> i \<notin> cloud (snd (registerTeam e b fs w))) \<and>
        ((\<forall>i \<in> set ups. deleteImageFromCloudinary e i) \<and> set ups \<inter> cloud w = {} \<longrightarrow>
           cloud (snd (registerTeam e b fs w)) = cloud w)"
    if p: "processPlayersDataWithCloudinary e b fs (generateTeamId e) w = (Inr (ps, ups), w1)"
  proof -
    note k = processPlayersDataWithCloudinary_keeps [OF p]
    note ok = processPlayersDataWithCloudinary_ok [OF p]
    from k assms(4) have dup: "findExistingTeam b w1 \<noteq> None"
      by (simp add: findExistingTeam_def)
    have r: "registerTeam e b fs w = (Inl DuplicateRegistration, cleanupCloudinaryImages e ups w1)"
      unfolding registerTeam_roster_built [OF assms(1,2) p] using assms(3) dup by simp
    from ok have "(\<forall>i \<in> set ups. deleteImageFromCloudinary e i) \<and> set ups \<inter> cloud w = {} \<longrightarrow>
        cloud (cleanupCloudinaryImages e ups w1) = cloud w"
      using cleanup_restores_run [of ups e w w1] by simp
    with k ok show ?thesis
      unfolding r by (simp add: cleanupCloudinaryImages_keeps(1) cleanup_removes)
  qed
  have disk: "fst (registerTeam_disk e b fs w) = Inl DuplicateRegistration \<and>
        teams (snd (registerTeam_disk e b fs w)) = teams w"
    if p: "processPlayersData e b fs w = (Inr qs, w2)"
  proof -
    from processPlayersData_ok [OF p] have w2: "w2 = w" by simp
    show ?thesis
      unfolding registerTeam_disk_roster_built [OF assms(1,2) p] w2
      using assms(3,4) by simp
  qed
  from cloudinary disk show ?thesis by blast
qed

theorem duplicate_rejected_after_roster_witness:
  "findExistingTeam sample_body once_registered \<noteq> None \<and>
   fst (registerTeam second_env sample_body sample_files once_registered)
     = Inl DuplicateRegistration \<and>
   teams (snd (registerTeam second_env sample_body sample_files once_registered))
     = teams once_registered \<and>
   cloud (snd (registerTeam second_env sample_body sample_files once_registered))
     = cloud once_registered \<and>
   fst (registerTeam_disk second_env sample_body sample_files once_registered)
     = Inl DuplicateRegistration \<and>
   teams (snd (registerTeam_disk second_env sample_body sample_files once_registered))
     = teams once_registered"
proof -
  let ?X = "processPlayersDataWithCloudinary second_env sample_body sample_files
              (generateTeamId second_env) once_registered"
  let ?Y = "processPlayersData second_env sample_body sample_files once_registered"
  have "\<not> isl (fst ?X)" "\<not> isl (fst ?Y)" by code_simp+
  then have X: "?X = (Inr (fst (projr (fst ?X)), snd (projr (fst ?X))), snd ?X)"
    and Y: "?Y = (Inr (projr (fst ?Y)), snd ?Y)"
    by (simp_all add: prod_eq_iff)
  have h1: "\<not> missingRequiredFields sample_body" by code_simp
  have h2: "\<not> missingEmergencyContact sample_body" by code_simp
  have h3: "findOneResolves second_env" by code_simp
  have h4: "findExistingTeam sample_body once_registered \<noteq> None" by code_simp
  have r: "(\<forall>i \<in> set (snd (projr (fst ?X))). deleteImageFromCloudinary second_env i) \<and>
      set (snd (projr (fst ?X))) \<inter> cloud once_registered = {}" by code_simp
  from duplicate_rejected_after_roster [OF h1 h2 h3 h4] X Y h4 r show ?thesis
    by blast
qed

text \<open>
  The sample team is registered once and submitted again. With four players only, the
  second submission is answered with a roster-size violation, not with a duplicate. With
  the full roster, the store holds the five new uploads when the roster builder hands over
  to the duplicate check; and when the deletions reject, the submission fails as a
  duplicate and the uploads stay.
\<close>

theorem duplicate_check_counterexample:
  "findExistingTeam sample_body once_registered \<noteq> None \<and>
   findExistingTeam short_body once_registered \<noteq> None \<and>
   fst (registerTeam second_env short_body sample_files once_registered)
     = Inl (RosterSizeViolation 4) \<and>
   fst (registerTeam_disk second_env short_body sample_files once_registered)
     = Inl (RosterSizeViolation 4) \<and>
   cloud (snd (processPlayersDataWithCloudinary second_env sample_body sample_files
                 (generateTeamId second_env) once_registered))
     \<noteq> cloud once_registered \<and>
   fst (registerTeam (second_env\<lparr>deleteImageFromCloudinary := (\<lambda>_. False)\<rparr>)
          sample_body sample_files once_registered) = Inl DuplicateRegistration \<and>
   cloud (snd (registerTeam (second_env\<lparr>deleteImageFromCloudinary := (\<lambda>_. False)\<rparr>)
          sample_body sample_files once_registered)) \<noteq> cloud once_registered"
  by code_simp

subsection \<open>Unknown tiers\<close>

lemma unknown_tier_not_validated:
  "ageRanges e (b_tier b) = None \<Longrightarrow> \<not> validatePlayerAgesForTier e (builtTeam e b ps)"
  by (simp add: validatePlayerAgesForTier_builtTeam)

lemma registerTeam_unknown_tier:
  assumes "ageRanges e (b_tier b) = None"
  shows "isl (fst (registerTeam e b fs w)) \<and> teams (snd (registerTeam e b fs w)) = teams w"
proof (cases "registerTeam e b fs w")
  case (Pair r w')
  show ?thesis
  proof (cases r)
    case (Inl err)
    with Pair registerTeam_failed [of e b fs w err w'] show ?thesis by simp
  next
    case (Inr ok)
    obtain tid ins where "ok = (tid, ins)" by (cases ok)
    with Pair Inr registerTeam_succeeded [of e b fs w tid ins w']
    obtain ps where "validatePlayerAgesForTier e (builtTeam e b ps)" by blast
    with unknown_tier_not_validated [OF assms] show ?thesis by blast
  qed
qed

lemma registerTeam_disk_unknown_tier:
  assumes "ageRanges e (b_tier b) = None"
  shows "isl (fst (registerTeam_disk e b fs w)) \<and>
         teams (snd (registerTeam_disk e b fs w)) = teams w"
proof (cases "registerTeam_disk e b fs w")
  case (Pair r w')
  show ?thesis
  proof (cases r)
    case (Inl err)
    with Pair registerTeam_disk_failed [of e b fs w err w'] show ?thesis by simp
  next
    case (Inr ok)
    obtain tid ins where "ok = (tid, ins)" by (cases ok)
    with Pair Inr registerTeam_disk_succeeded [of e b fs w tid ins w']
    obtain ps where "validatePlayerAgesForTier e (builtTeam e b ps)" by blast
    with unknown_tier_not_validated [OF assms] show ?thesis by blast
  qed
qed

text \<open>
  C3. The claim is that an unknown tier makes the submission fail with \<open>InvalidTier\<close>, is
  never given a default fee and never results in a persisted Team. Neither controller
  checks the tier: no path answers \<open>InvalidTier\<close>, and \<^verbatim>\<open>fees[tier] || 350\<close> gives the Team
  that the handler constructs for a tier without a fee the fee 350. What holds: for a tier
  that neither table of the Team model knows, the submission fails, never with
  \<open>InvalidTier\<close>, and no Team is persisted, in both controllers; the Team constructed on
  the way carries the fee 350; and a submission that reaches the age validation (the
  required fields are there, the roster is built, the lookup of a duplicate resolves and
  finds none) is turned down there, with \<open>AgeEligibilityViolation\<close>, since the validation
  does not default the age bounds of an unknown tier.
\<close>

theorem unknown_tier_is_not_persisted:
  assumes "getRegistrationFees e (b_tier b) = None" and "ageRanges e (b_tier b) = None"
  shows "isl (fst (registerTeam e b fs w)) \<and>
         fst (registerTeam e b fs w) \<noteq> Inl InvalidTier \<and>
         teams (snd (registerTeam e b fs w)) = teams w \<and>
         isl (fst (submit_disk e b fs w)) \<and>
         fst (submit_disk e b fs w) \<noteq> Inl InvalidTier \<and>
         teams (snd (submit_disk e b fs w)) = teams w \<and>
         registrationFee (builtTeam e b ps) = 350 \<and>
         (\<not> missingRequiredFields b \<and> \<not> missingEmergencyContact b \<and> findOneResolves e \<and>
          findExistingTeam b w = None \<and>
          processPlayersDataWithCloudinary e b fs (generateTeamId e) w = (Inr (ps, ups), w1) \<longrightarrow>
            fst (registerTeam e b fs w) = Inl AgeEligibilityViolation) \<and>
         (\<not> missingRequiredFields b \<and> \<not> missingEmergencyContact b \<and> findOneResolves e \<and>
          findExistingTeam b w = None \<and>
          processPlayersData e b fs (uploadAny fs w) = (Inr qs, w2) \<longrightarrow>
            fst (submit_disk e b fs w) = Inl AgeEligibilityViolation)"
proof -
  note nv = unknown_tier_not_validated [OF assms(2)]
  from assms(1) have fee: "registrationFee (builtTeam e b ps) = 350"
    by (simp add: builtTeam_fields registrationFeeFor_def)
  have c: "isl (fst (registerTeam e b fs w))" "teams (snd (registerTeam e b fs w)) = teams w"
    using registerTeam_unknown_tier [OF assms(2)] by simp_all
  have "teams (uploadAny fs w) = teams w" by (simp add: uploadAny_def)
  with registerTeam_disk_unknown_tier [OF assms(2), of fs "uploadAny fs w"]
  have d: "isl (fst (submit_disk e b fs w))" "teams (snd (submit_disk e b fs w)) = teams w"
    by (simp_all add: submit_disk_def)
  have n: "fst (registerTeam e b fs w) \<noteq> Inl InvalidTier"
    "fst (submit_disk e b fs w) \<noteq> Inl InvalidTier"
    unfolding submit_disk_def
    by (rule registerTeam_never_InvalidTier, rule registerTeam_disk_never_InvalidTier)
  have a: "fst (registerTeam e b fs w) = Inl AgeEligibilityViolation"
    if nm: "\<not> missingRequiredFields b" "\<not> missingEmergencyContact b"
      and fo: "findOneResolves e" and nd: "findExistingTeam b w = None"
      and p: "processPlayersDataWithCloudinary e b fs (generateTeamId e) w = (Inr (ps, ups), w1)"
  proof -
    from processPlayersDataWithCloudinary_keeps [OF p] nd
    have "findExistingTeam b w1 = None" by (simp add: findExistingTeam_def)
    with fo nv show ?thesis unfolding registerTeam_roster_built [OF nm p] by simp
  qed
  have k: "fst (submit_disk e b fs w) = Inl AgeEligibilityViolation"
    if nm: "\<not> missingRequiredFields b" "\<not> missingEmergencyContact b"
      and fo: "findOneResolves e" and nd: "findExistingTeam b w = None"
      and p: "processPlayersData e b fs (uploadAny fs w) = (Inr qs, w2)"
  proof -
    from processPlayersData_keeps [OF p] nd
    have "findExistingTeam b w2 = None" by (simp add: findExistingTeam_def uploadAny_def)
    with fo nv show ?thesis
      unfolding submit_disk_def registerTeam_disk_roster_built [OF nm p] by simp
  qed
  from c d n fee a k show ?thesis by blast
qed

theorem unknown_tier_is_not_persisted_witness:
  "getRegistrationFees sample_env (b_tier varsity_body) = None \<and>
   ageRanges sample_env (b_tier varsity_body) = None \<and>
   fst (registerTeam sample_env varsity_body sample_files empty_world)
     = Inl AgeEligibilityViolation \<and>
   teams (snd (registerTeam sample_env varsity_body sample_files empty_world)) = [] \<and>
   fst (submit_disk sample_env varsity_body sample_files empty_world)
     = Inl AgeEligibilityViolation \<and>
   teams (snd (submit_disk sample_env varsity_body sample_files empty_world)) = [] \<and>
   registrationFee (builtTeam sample_env varsity_body
     (fst (projr (fst (processPlayersDataWithCloudinary sample_env varsity_body sample_files
        (generateTeamId sample_env) empty_world))))) = 350"
proof -
  let ?X = "processPlayersDataWithCloudinary sample_env varsity_body sample_files
              (generateTeamId sample_env) empty_world"
  let ?Y = "processPlayersData sample_env varsity_body sample_files
              (uploadAny sample_files empty_world)"
  let ?ps = "fst (projr (fst ?X))"
  have h: "getRegistrationFees sample_env (b_tier varsity_body) = None"
    "ageRanges sample_env (b_tier varsity_body) = None"
    by code_simp+
  have i: "\<not> isl (fst ?X)" "\<not> isl (fst ?Y)" by code_simp+
  then have X: "?X = (Inr (?ps, snd (projr (fst ?X))), snd ?X)"
    and Y: "?Y = (Inr (projr (fst ?Y)), snd ?Y)"
    by (simp_all add: prod_eq_iff)
  have s: "\<not> missingRequiredFields varsity_body" "\<not> missingEmergencyContact varsity_body"
    "findOneResolves sample_env" "findExistingTeam varsity_body empty_world = None"
    "teams empty_world = []"
    by code_simp+
  note t = unknown_tier_is_not_persisted [OF h, where fs = sample_files and w = empty_world
      and ps = ?ps and ups = "snd (projr (fst ?X))" and ?w1.0 = "snd ?X"]
  note u = unknown_tier_is_not_persisted [OF h, where fs = sample_files and w = empty_world
      and qs = "projr (fst ?Y)" and ?w2.0 = "snd ?Y"]
  from t X s have a: "fst (registerTeam sample_env varsity_body sample_files empty_world)
       = Inl AgeEligibilityViolation"
    "teams (snd (registerTeam sample_env varsity_body sample_files empty_world)) = teams empty_world"
    "teams (snd (submit_disk sample_env varsity_body sample_files empty_world)) = teams empty_world"
    "registrationFee (builtTeam sample_env varsity_body ?ps) = 350"
    by blast+
  from u Y s have b: "fst (submit_disk sample_env varsity_body sample_files empty_world)
       = Inl AgeEligibilityViolation"
    by blast
  from h a b s(5) show ?thesis by simp
qed

text \<open>
  The sample submission for the tier \<^verbatim>\<open>varsity\<close>, which neither table knows: the Team is
  constructed with the fee 350 and the submission is turned down by the age validation,
  as an age violation and not as an invalid tier, in both controllers; nothing is
  persisted.
\<close>

theorem unknown_tier_counterexample:
  "getRegistrationFees sample_env (b_tier varsity_body) = None \<and>
   ageRanges sample_env (b_tier varsity_body) = None \<and>
   registrationFee (builtTeam sample_env varsity_body []) = 350 \<and>
   fst (registerTeam sample_env varsity_body sample_files empty_world) = Inl AgeEligibilityViolation \<and>
   fst (registerTeam sample_env varsity_body sample_files empty_world) \<noteq> Inl InvalidTier \<and>
   fst (submit_disk sample_env varsity_body sample_files empty_world) = Inl AgeEligibilityViolation \<and>
   fst (submit_disk sample_env varsity_body sample_files empty_world) \<noteq> Inl InvalidTier \<and>
   teams (snd (registerTeam sample_env varsity_body sample_files empty_world)) = [] \<and>
   teams (snd (submit_disk sample_env varsity_body sample_files empty_world)) = []"
  by code_simp

subsection \<open>The roster is the contiguous prefix of the entries\<close>

lemma collectPlayersWithCloudinary_prefix:
  "collectPlayersWithCloudinary e fs rq tf entries i acc ups w =
   collectPlayersWithCloudinary e fs rq tf (takeWhile (\<lambda>x. x \<noteq> None) entries) i acc ups w"
proof (induction entries arbitrary: i acc ups w rq)
  case Nil
  show ?case by simp
next
  case (Cons x entries)
  show ?case
  proof (cases x)
    case None
    then show ?thesis by simp
  next
    case (Some rp)
    then show ?thesis using Cons.IH by (simp split: option.splits)
  qed
qed

lemma collectPlayers_prefix:
  "collectPlayers fs entries i acc =
   collectPlayers fs (takeWhile (\<lambda>x. x \<noteq> None) entries) i acc"
proof (induction entries arbitrary: i acc)
  case Nil
  show ?case by simp
next
  case (Cons x entries)
  show ?case
  proof (cases x)
    case None
    then show ?thesis by simp
  next
    case (Some rp)
    then show ?thesis using Cons.IH by (simp split: option.splits)
  qed
qed

lemma collectPlayersWithCloudinary_length:
  "collectPlayersWithCloudinary e fs rq tf entries i acc ups w = (Inr (ps, ups'), w') \<Longrightarrow>
   length ps = length acc + length (takeWhile (\<lambda>x. x \<noteq> None) entries)"
proof (induction entries arbitrary: i acc ups w rq)
  case Nil
  then show ?case by simp
next
  case (Cons x entries)
  show ?case
  proof (cases x)
    case None
    with Cons.prems show ?thesis by simp
  next
    case (Some rp)
    with Cons.prems Cons.IH show ?thesis
      by (fastforce split: if_splits option.splits)
  qed
qed

lemma collectPlayers_length:
  "collectPlayers fs entries i acc = Inr ps \<Longrightarrow>
   length ps = length acc + length (takeWhile (\<lambda>x. x \<noteq> None) entries)"
proof (induction entries arbitrary: i acc)
  case Nil
  then show ?case by simp
next
  case (Cons x entries)
  show ?case
  proof (cases x)
    case None
    with Cons.prems show ?thesis by simp
  next
    case (Some rp)
    with Cons.prems Cons.IH show ?thesis
      by (fastforce split: if_splits option.splits)
  qed
qed

lemma players_update_irrelevant:
  "missingRequiredFields (b\<lparr>b_players := x\<rparr>) = missingRequiredFields b"
  "missingEmergencyContact (b\<lparr>b_players := x\<rparr>) = missingEmergencyContact b"
  "findExistingTeam (b\<lparr>b_players := x\<rparr>) w = findExistingTeam b w"
  "newTeam e (b\<lparr>b_players := x\<rparr>) ec tid ps = newTeam e b ec tid ps"
  "b_emergencyContact (b\<lparr>b_players := x\<rparr>) = b_emergencyContact b"
  by (simp_all add: missingRequiredFields_def missingEmergencyContact_def findExistingTeam_def
        newTeam_def)

lemma findPlayerFile_photosBelow:
  "i < n \<Longrightarrow> findPlayerFile (photosBelow n fs) i = findPlayerFile fs i"
  unfolding findPlayerFile_def photosBelow_def by (induction fs) auto

lemma collectPlayersWithCloudinary_photosBelow:
  "i + length entries \<le> n \<Longrightarrow>
   collectPlayersWithCloudinary e (photosBelow n fs) rq tf entries i acc ups w =
   collectPlayersWithCloudinary e fs rq tf entries i acc ups w"
proof (induction entries arbitrary: i acc ups w rq)
  case Nil
  show ?case by simp
next
  case (Cons x entries)
  show ?case
  proof (cases x)
    case None
    then show ?thesis by simp
  next
    case (Some rp)
    from Cons.prems have "i < n" "(i + 1) + length entries \<le> n" by simp_all
    with Some Cons.IH show ?thesis
      by (simp add: findPlayerFile_photosBelow split: option.splits)
  qed
qed

lemma collectPlayers_photosBelow:
  "i + length entries \<le> n \<Longrightarrow>
   collectPlayers (photosBelow n fs) entries i acc = collectPlayers fs entries i acc"
proof (induction entries arbitrary: i acc)
  case Nil
  show ?case by simp
next
  case (Cons x entries)
  show ?case
  proof (cases x)
    case None
    then show ?thesis by simp
  next
    case (Some rp)
    from Cons.prems have "i < n" "(i + 1) + length entries \<le> n" by simp_all
    with Some Cons.IH show ?thesis
      by (simp add: findPlayerFile_photosBelow split: option.splits)
  qed
qed

text \<open>
  The answer of the disk controller and the Team collection it leaves depend on the
  world through the Team collection only, and on the files through the roster that the
  builder makes of them.
\<close>

lemma processPlayersData_answer:
  "fst (processPlayersData e b fs w) =
     (case b_players b of
        None \<Rightarrow> Inl ProcessingError
      | Some entries \<Rightarrow>
          (case collectPlayers fs entries 0 [] of
             Inl err \<Rightarrow> Inl err
           | Inr ps \<Rightarrow>
               if length ps < 5 \<or> 10 < length ps then Inl (RosterSizeViolation (length ps))
               else Inr ps))"
  by (simp add: processPlayersData_def split: option.splits sum.splits)

lemma movePlayerFiles_answer:
  "fst (movePlayerFiles e up todo moved w) = fst (movePlayerFiles e up todo moved w0) \<and>
   fst (snd (movePlayerFiles e up todo moved w)) = fst (snd (movePlayerFiles e up todo moved w0))"
proof (induction todo arbitrary: moved w w0)
  case Nil
  show ?case by simp
next
  case (Cons p todo)
  show ?case
  proof (cases "idPhotoUrl p")
    case None
    then show ?thesis by simp
  next
    case (Some oldPath)
    show ?thesis
    proof (cases "rename e oldPath (up @ ''/'' @ basename oldPath)")
      case False
      with Some show ?thesis by (simp add: Let_def)
    next
      case True
      with Some Cons.IH show ?thesis by (simp add: Let_def)
    qed
  qed
qed

lemma updateFilePathsWithTeamId_answer:
  assumes "teams w = teams w0"
  shows "fst (updateFilePathsWithTeamId e t w) = fst (updateFilePathsWithTeamId e t w0) \<and>
         teams (snd (updateFilePathsWithTeamId e t w)) =
           teams (snd (updateFilePathsWithTeamId e t w0))"
proof (cases "mkdir e (teamUploadPath e t)")
  case False
  with assms show ?thesis by (simp add: updateFilePathsWithTeamId_def)
next
  case True
  let ?up = "teamUploadPath e t"
  obtain fin ps w1 where m: "movePlayerFiles e ?up (players t) [] w = (fin, ps, w1)"
    by (cases "movePlayerFiles e ?up (players t) [] w")
  obtain fin0 ps0 w2 where m0: "movePlayerFiles e ?up (players t) [] w0 = (fin0, ps0, w2)"
    by (cases "movePlayerFiles e ?up (players t) [] w0")
  from movePlayerFiles_answer [of e ?up "players t" "[]" w w0] m m0
  have eq: "fin0 = fin" "ps0 = ps" by simp_all
  from movePlayerFiles_keeps [OF m] movePlayerFiles_keeps [OF m0] assms
  have k: "teams w1 = teams w2" by simp
  from True m m0 eq k show ?thesis
    by (simp add: updateFilePathsWithTeamId_def Let_def saveAgain_def)
qed

lemma registerTeam_disk_answer:
  assumes t: "teams w = teams w0"
    and c: "fst (processPlayersData e b fs w) = fst (processPlayersData e b fs0 w0)"
  shows "fst (registerTeam_disk e b fs w) = fst (registerTeam_disk e b fs0 w0) \<and>
         teams (snd (registerTeam_disk e b fs w)) = teams (snd (registerTeam_disk e b fs0 w0))"
proof (cases "missingRequiredFields b \<or> missingEmergencyContact b")
  case True
  with t show ?thesis unfolding registerTeam_disk_missing [OF True] by simp
next
  case False
  then have nm: "\<not> missingRequiredFields b" "\<not> missingEmergencyContact b" by simp_all
  obtain r1 w1 where p: "processPlayersData e b fs w = (r1, w1)"
    by (cases "processPlayersData e b fs w")
  obtain r2 w2 where q: "processPlayersData e b fs0 w0 = (r2, w2)"
    by (cases "processPlayersData e b fs0 w0")
  from c p q have r2: "r2 = r1" by simp
  from processPlayersData_keeps [OF p] processPlayersData_keeps [OF q] t
  have k: "teams w1 = teams w2" by simp
  show ?thesis
  proof (cases r1)
    case (Inl err)
    with k show ?thesis
      unfolding registerTeam_disk_roster_failed [OF nm p [unfolded Inl]]
        registerTeam_disk_roster_failed [OF nm q [unfolded r2 Inl]]
      by simp
  next
    case (Inr ps)
    let ?t = "builtTeam e b ps"
    from k have d: "findExistingTeam b w1 = findExistingTeam b w2"
      by (simp add: findExistingTeam_def)
    from k have "teams (save ?t w1) = teams (save ?t w2)" by (simp add: save_def)
    from updateFilePathsWithTeamId_answer [OF this, of e ?t]
    have u: "fst (updateFilePathsWithTeamId e ?t (save ?t w1)) =
               fst (updateFilePathsWithTeamId e ?t (save ?t w2))"
      "teams (snd (updateFilePathsWithTeamId e ?t (save ?t w1))) =
               teams (snd (updateFilePathsWithTeamId e ?t (save ?t w2)))"
      by simp_all
    obtain t1 w3 where u1: "updateFilePathsWithTeamId e ?t (save ?t w1) = (t1, w3)"
      by (cases "updateFilePathsWithTeamId e ?t (save ?t w1)")
    obtain t2 w4 where u2: "updateFilePathsWithTeamId e ?t (save ?t w2) = (t2, w4)"
      by (cases "updateFilePathsWithTeamId e ?t (save ?t w2)")
    from u u1 u2 have v: "t2 = t1" "teams w3 = teams w4" by simp_all
    from k d u1 u2 v show ?thesis
      unfolding registerTeam_disk_roster_built [OF nm p [unfolded Inr]]
        registerTeam_disk_roster_built [OF nm q [unfolded r2 Inr]]
      by (simp add: unlinkRequestFiles_keeps cleanupUploadedFiles_keeps notifications_keep)
  qed
qed

text \<open>
  C10. The claim is that entries behind a gap are ignored: never validated, never
  uploaded, never counted, and not an error. The roster builder processes exactly the
  contiguous prefix of the player indices: both builders give, for any entries and files,
  the result and the world that they give for the entries before the first index without
  a field group, also when the request is stripped of every file but the photos of the
  indices of that prefix; a roster that is built has exactly as many players as the
  prefix has entries. So does the Cloudinary controller as a whole: nothing that is sent
  for an index behind the gap is validated, uploaded or counted, and it is no error. The
  disk controller differs in one point: its middleware has written every file of the
  request to the disk before the builder runs, the photo of an entry behind the gap
  too; the answer of a submission and the Team collection it leaves are those of the
  prefix and its photos.
\<close>

theorem roster_is_contiguous_prefix:
  "processPlayersDataWithCloudinary e (b\<lparr>b_players := Some entries\<rparr>) fs tid w =
     processPlayersDataWithCloudinary e (b\<lparr>b_players := Some (contiguous entries)\<rparr>) fs tid w \<and>
   processPlayersData e (b\<lparr>b_players := Some entries\<rparr>) fs w =
     processPlayersData e (b\<lparr>b_players := Some (contiguous entries)\<rparr>) fs w \<and>
   (\<forall>ps ups w'. processPlayersDataWithCloudinary e (b\<lparr>b_players := Some entries\<rparr>) fs tid w
        = (Inr (ps, ups), w') \<longrightarrow> length ps = length (contiguous entries)) \<and>
   (\<forall>ps w'. processPlayersData e (b\<lparr>b_players := Some entries\<rparr>) fs w = (Inr ps, w')
        \<longrightarrow> length ps = length (contiguous entries)) \<and>
   registerTeam e (b\<lparr>b_players := Some entries\<rparr>) fs w =
     registerTeam e (b\<lparr>b_players := Some (contiguous entries)\<rparr>) fs w \<and>
   registerTeam_disk e (b\<lparr>b_players := Some entries\<rparr>) fs w =
     registerTeam_disk e (b\<lparr>b_players := Some (contiguous entries)\<rparr>) fs w \<and>
   processPlayersDataWithCloudinary e (b\<lparr>b_players := Some entries\<rparr>) fs tid w =
     processPlayersDataWithCloudinary e (b\<lparr>b_players := Some (contiguous entries)\<rparr>)
       (photosBelow (length (contiguous entries)) fs) tid w \<and>
   registerTeam e (b\<lparr>b_players := Some entries\<rparr>) fs w =
     registerTeam e (b\<lparr>b_players := Some (contiguous entries)\<rparr>)
       (photosBelow (length (contiguous entries)) fs) w \<and>
   processPlayersData e (b\<lparr>b_players := Some entries\<rparr>) fs w =
     processPlayersData e (b\<lparr>b_players := Some (contiguous entries)\<rparr>)
       (photosBelow (length (contiguous entries)) fs) w \<and>
   disk (uploadAny fs w) = disk w \<union> set (map path fs) \<and>
   fst (submit_disk e (b\<lparr>b_players := Some entries\<rparr>) fs w) =
     fst (submit_disk e (b\<lparr>b_players := Some (contiguous entries)\<rparr>)
            (photosBelow (length (contiguous entries)) fs) w) \<and>
   teams (snd (submit_disk e (b\<lparr>b_players := Some entries\<rparr>) fs w)) =
     teams (snd (submit_disk e (b\<lparr>b_players := Some (contiguous entries)\<rparr>)
                   (photosBelow (length (contiguous entries)) fs) w))"
proof -
  let ?b = "b\<lparr>b_players := Some entries\<rparr>"
  let ?c = "b\<lparr>b_players := Some (contiguous entries)\<rparr>"
  let ?n = "length (contiguous entries)"
  have bp: "b_players ?b = Some entries" "b_tier ?b = b_tier b" "b_teamName ?b = b_teamName b"
    by simp_all
  have 1: "processPlayersDataWithCloudinary e ?b fs tid' w =
     processPlayersDataWithCloudinary e ?c fs tid' w"
    for tid'
    unfolding processPlayersDataWithCloudinary_def
    using collectPlayersWithCloudinary_prefix [of e fs _ _ entries] by simp
  have 2: "processPlayersData e ?b fs w' = processPlayersData e ?c fs w'" for w'
    unfolding processPlayersData_def
    using collectPlayers_prefix [of fs entries] by simp
  have 3: "length ps = ?n"
    if p: "processPlayersDataWithCloudinary e ?b fs tid w = (Inr (ps, ups), w')" for ps ups w'
  proof -
    obtain r1 w1 where c: "collectPlayersWithCloudinary e fs (b_tier ?b = ''high_school'')
      (replace_non_alphanumeric (b_teamName ?b) @ ''_'' @ tid) entries 0 [] [] w = (r1, w1)"
      by (cases "collectPlayersWithCloudinary e fs (b_tier ?b = ''high_school'')
      (replace_non_alphanumeric (b_teamName ?b) @ ''_'' @ tid) entries 0 [] [] w")
    show ?thesis
    proof (cases r1)
      case (Inl err1)
      from p show ?thesis
        unfolding processPlayersDataWithCloudinary_Inl [OF bp(1) c [unfolded Inl]] by simp
    next
      case (Inr pr)
      obtain ps1 ups1 where pr: "pr = (ps1, ups1)" by (cases pr)
      from p have "ps1 = ps"
        unfolding processPlayersDataWithCloudinary_Inr [OF bp(1) c [unfolded Inr pr]]
        by (simp split: if_splits)
      with collectPlayersWithCloudinary_length [OF c [unfolded Inr pr]] show ?thesis by simp
    qed
  qed
  have 4: "length ps = ?n"
    if p: "processPlayersData e ?b fs w = (Inr ps, w')" for ps w'
  proof -
    from processPlayersData_ok [OF p] bp(1) have "collectPlayers fs entries 0 [] = Inr ps"
      by simp
    from collectPlayers_length [OF this] show ?thesis by simp
  qed
  have 5: "registerTeam e ?b fs w = registerTeam e ?c fs w"
    unfolding registerTeam_def players_update_irrelevant using 1 [of "generateTeamId e"] by simp
  have 6: "registerTeam_disk e ?b fs w' = registerTeam_disk e ?c fs w'" for w'
    unfolding registerTeam_disk_def players_update_irrelevant using 2 by simp
  have 7: "processPlayersDataWithCloudinary e ?c fs tid' w =
     processPlayersDataWithCloudinary e ?c (photosBelow ?n fs) tid' w"
    for tid'
    unfolding processPlayersDataWithCloudinary_def
    using collectPlayersWithCloudinary_photosBelow [of 0 "contiguous entries" ?n e fs] by simp
  have 8: "registerTeam e ?c fs w = registerTeam e ?c (photosBelow ?n fs) w"
    unfolding registerTeam_def using 7 [of "generateTeamId e"] by simp
  have 9: "processPlayersData e ?c fs w' = processPlayersData e ?c (photosBelow ?n fs) w''"
    if "w' = w''" for w' w''
    unfolding processPlayersData_def that
    using collectPlayers_photosBelow [of 0 "contiguous entries" ?n fs] by simp
  have 10: "disk (uploadAny fs w) = disk w \<union> set (map path fs)"
    by (simp add: uploadAny_def)
  have a: "fst (processPlayersData e ?c fs (uploadAny fs w)) =
           fst (processPlayersData e ?c (photosBelow ?n fs) (uploadAny (photosBelow ?n fs) w))"
    unfolding processPlayersData_answer
    using collectPlayers_photosBelow [of 0 "contiguous entries" ?n fs] by simp
  have "teams (uploadAny fs w) = teams (uploadAny (photosBelow ?n fs) w)"
    by (simp add: uploadAny_def)
  from registerTeam_disk_answer [OF this a]
  have 11: "fst (submit_disk e ?b fs w) = fst (submit_disk e ?c (photosBelow ?n fs) w)"
    and 12: "teams (snd (submit_disk e ?b fs w)) =
             teams (snd (submit_disk e ?c (photosBelow ?n fs) w))"
    unfolding submit_disk_def 6 by simp_all
  from 1 [of tid] 7 [of tid] have 13: "processPlayersDataWithCloudinary e ?b fs tid w =
     processPlayersDataWithCloudinary e ?c (photosBelow ?n fs) tid w" by simp
  from 5 8 have 14: "registerTeam e ?b fs w = registerTeam e ?c (photosBelow ?n fs) w" by simp
  from 2 [of w] 9 [of w w] have 15: "processPlayersData e ?b fs w =
     processPlayersData e ?c (photosBelow ?n fs) w" by simp
  from 1 [of tid] 2 [of w] 3 4 5 6 [of w] 13 14 15 10 11 12 show ?thesis by blast
qed

theorem roster_is_contiguous_prefix_witness:
  "photosBelow 5 gap_files = sample_files \<and>
   processPlayersDataWithCloudinary sample_env gap_body gap_files ''TEAM-ABC123'' empty_world
     = processPlayersDataWithCloudinary sample_env sample_body sample_files ''TEAM-ABC123''
         empty_world \<and>
   \<not> isl (fst (processPlayersDataWithCloudinary sample_env gap_body gap_files
                 ''TEAM-ABC123'' empty_world)) \<and>
   length (fst (projr (fst (processPlayersDataWithCloudinary sample_env gap_body gap_files
                 ''TEAM-ABC123'' empty_world)))) = 5 \<and>
   \<not> isl (fst (processPlayersData sample_env gap_body gap_files empty_world)) \<and>
   length (projr (fst (processPlayersData sample_env gap_body gap_files empty_world))) = 5 \<and>
   registerTeam sample_env gap_body gap_files empty_world
     = registerTeam sample_env sample_body sample_files empty_world \<and>
   fst (submit_disk sample_env gap_body gap_files empty_world)
     = fst (submit_disk sample_env sample_body sample_files empty_world) \<and>
   teams (snd (submit_disk sample_env gap_body gap_files empty_world))
     = teams (snd (submit_disk sample_env sample_body sample_files empty_world))"
proof -
  let ?entries = "the (b_players gap_body)"
  let ?X = "processPlayersDataWithCloudinary sample_env gap_body gap_files ''TEAM-ABC123''
              empty_world"
  let ?Y = "processPlayersData sample_env gap_body gap_files empty_world"
  have g: "gap_body\<lparr>b_players := Some ?entries\<rparr> = gap_body"
    "gap_body\<lparr>b_players := Some (contiguous ?entries)\<rparr> = sample_body"
    "length (contiguous ?entries) = 5"
    by code_simp+
  have f: "photosBelow 5 gap_files = sample_files" by code_simp
  have i: "\<not> isl (fst ?X)" "\<not> isl (fst ?Y)" by code_simp+
  then have X: "?X = (Inr (fst (projr (fst ?X)), snd (projr (fst ?X))), snd ?X)"
    and Y: "?Y = (Inr (projr (fst ?Y)), snd ?Y)"
    by (simp_all add: prod_eq_iff)
  note t = roster_is_contiguous_prefix [where e = sample_env and b = gap_body
      and entries = "?entries" and fs = gap_files and tid = "''TEAM-ABC123''"
      and w = empty_world, unfolded g f]
  from t X Y have a: "length (fst (projr (fst ?X))) = 5" "length (projr (fst ?Y)) = 5"
    "?X = processPlayersDataWithCloudinary sample_env sample_body sample_files ''TEAM-ABC123''
         empty_world"
    "registerTeam sample_env gap_body gap_files empty_world
     = registerTeam sample_env sample_body sample_files empty_world"
    "fst (submit_disk sample_env gap_body gap_files empty_world)
     = fst (submit_disk sample_env sample_body sample_files empty_world)"
    "teams (snd (submit_disk sample_env gap_body gap_files empty_world))
     = teams (snd (submit_disk sample_env sample_body sample_files empty_world))"
    by blast+
  from f i a show ?thesis by blast
qed

text \<open>
  The sample submission followed, behind a gap at index 5, by two more entries, with a
  photo for each of the seven entries: the five players before the gap make the roster
  and the submission is accepted by both controllers. The Cloudinary controller has
  stored five images. The disk controller's middleware has written the photo of the entry
  at index 6 to the disk, where it still is when the handler has answered.
\<close>

theorem photo_behind_gap_is_stored_on_disk:
  "contiguous (the (b_players gap_body)) = the (b_players sample_body) \<and>
   the (b_players gap_body) ! 5 = None \<and>
   findPlayerFile gap_files 6 = Some (sample_file 6) \<and>
   \<not> isl (fst (registerTeam sample_env gap_body gap_files empty_world)) \<and>
   card (cloud (snd (registerTeam sample_env gap_body gap_files empty_world))) = 5 \<and>
   \<not> isl (fst (submit_disk sample_env gap_body gap_files empty_world)) \<and>
   path (sample_file 6) \<in> disk (uploadAny gap_files empty_world) \<and>
   path (sample_file 6) \<in> disk (snd (submit_disk sample_env gap_body gap_files empty_world))"
  by code_simp

subsection \<open>The size of the roster\<close>

text \<open>
  C5. When the loop of the roster builder ends with fewer than 5 or more than 10 players,
  the submission fails with \<open>RosterSizeViolation\<close> and the Team collection is as before;
  and whatever a submission answers, it persists nothing or one Team whose roster has
  between 5 and 10 players. Both controllers.
\<close>

theorem roster_size_enforced:
  assumes "\<not> missingRequiredFields b" and "\<not> missingEmergencyContact b"
    and "b_players b = Some entries"
  shows
    "(collectPlayersWithCloudinary e fs (b_tier b = ''high_school'')
        (replace_non_alphanumeric (b_teamName b) @ ''_'' @ generateTeamId e) entries 0 [] [] w
        = (Inr (ps, ups), w1) \<and> (length ps < 5 \<or> 10 < length ps) \<longrightarrow>
      fst (registerTeam e b fs w) = Inl (RosterSizeViolation (length ps)) \<and>
      teams (snd (registerTeam e b fs w)) = teams w) \<and>
     (collectPlayers fs entries 0 [] = Inr qs \<and> (length qs < 5 \<or> 10 < length qs) \<longrightarrow>
      fst (registerTeam_disk e b fs w) = Inl (RosterSizeViolation (length qs)) \<and>
      teams (snd (registerTeam_disk e b fs w)) = teams w) \<and>
     (\<forall>r w'. registerTeam e b fs w = (r, w') \<longrightarrow>
        teams w' = teams w \<or>
        (\<exists>t. teams w' = teams w @ [t] \<and> 5 \<le> length (players t) \<and> length (players t) \<le> 10)) \<and>
     (\<forall>r w'. registerTeam_disk e b fs w = (r, w') \<longrightarrow>
        teams w' = teams w \<or>
        (\<exists>t. teams w' = teams w @ [t] \<and> 5 \<le> length (players t) \<and> length (players t) \<le> 10))"
proof -
  have 1: "fst (registerTeam e b fs w) = Inl (RosterSizeViolation (length ps)) \<and>
      teams (snd (registerTeam e b fs w)) = teams w"
    if c: "collectPlayersWithCloudinary e fs (b_tier b = ''high_school'')
        (replace_non_alphanumeric (b_teamName b) @ ''_'' @ generateTeamId e) entries 0 [] [] w
        = (Inr (ps, ups), w1)" and n: "length ps < 5 \<or> 10 < length ps"
  proof -
    from n have p: "processPlayersDataWithCloudinary e b fs (generateTeamId e) w =
        (Inl (RosterSizeViolation (length ps)), cleanupCloudinaryImages e ups w1)"
      unfolding processPlayersDataWithCloudinary_Inr [OF assms(3) c] by simp
    from processPlayersDataWithCloudinary_keeps [OF p] show ?thesis
      unfolding registerTeam_roster_failed [OF assms(1,2) p] by simp
  qed
  have 2: "fst (registerTeam_disk e b fs w) = Inl (RosterSizeViolation (length qs)) \<and>
      teams (snd (registerTeam_disk e b fs w)) = teams w"
    if c: "collectPlayers fs entries 0 [] = Inr qs" and n: "length qs < 5 \<or> 10 < length qs"
  proof -
    from n have p: "processPlayersData e b fs w =
        (Inl (RosterSizeViolation (length qs)), cleanupUploadedFiles e qs w)"
      unfolding processPlayersData_Inr [OF assms(3) c] by simp
    from processPlayersData_keeps [OF p] show ?thesis
      unfolding registerTeam_disk_roster_failed [OF assms(1,2) p] by simp
  qed
  have 3: "teams w' = teams w \<or>
        (\<exists>t. teams w' = teams w @ [t] \<and> 5 \<le> length (players t) \<and> length (players t) \<le> 10)"
    if r: "registerTeam e b fs w = (r, w')" for r w'
  proof (cases r)
    case (Inl err)
    with registerTeam_failed [of e b fs w err w'] r show ?thesis by simp
  next
    case (Inr pr)
    obtain tid ins where "pr = (tid, ins)" by (cases pr)
    with registerTeam_succeeded [of e b fs w tid ins w'] r Inr
    obtain ps ups w1 where
      p: "processPlayersDataWithCloudinary e b fs (generateTeamId e) w = (Inr (ps, ups), w1)"
      and t: "teams w' = teams w @ [builtTeam e b ps]"
      by blast
    from processPlayersDataWithCloudinary_ok [OF p]
    have "5 \<le> length (players (builtTeam e b ps)) \<and> length (players (builtTeam e b ps)) \<le> 10"
      by (simp add: builtTeam_fields)
    with t show ?thesis by blast
  qed
  have 4: "teams w' = teams w \<or>
        (\<exists>t. teams w' = teams w @ [t] \<and> 5 \<le> length (players t) \<and> length (players t) \<le> 10)"
    if r: "registerTeam_disk e b fs w = (r, w')" for r w'
  proof (cases r)
    case (Inl err)
    with registerTeam_disk_failed [of e b fs w err w'] r show ?thesis by simp
  next
    case (Inr pr)
    obtain tid ins where "pr = (tid, ins)" by (cases pr)
    with registerTeam_disk_succeeded [of e b fs w tid ins w'] r Inr
    obtain ps t' where
      p: "processPlayersData e b fs w = (Inr ps, w)"
      and l: "length (players t') = length ps"
      and t: "teams w' = teams w @ [builtTeam e b ps] \<or> teams w' = teams w @ [t']"
      by blast
    from processPlayersData_ok [OF p] l
    have "5 \<le> length (players (builtTeam e b ps)) \<and> length (players (builtTeam e b ps)) \<le> 10"
      "5 \<le> length (players t') \<and> length (players t') \<le> 10"
      by (simp_all add: builtTeam_fields)
    with t show ?thesis by blast
  qed
  from 1 2 3 4 show ?thesis by blast
qed

theorem roster_size_enforced_witness:
  "fst (registerTeam sample_env short_body sample_files empty_world)
     = Inl (RosterSizeViolation 4) \<and>
   snd (registerTeam sample_env short_body sample_files empty_world) = empty_world \<and>
   fst (registerTeam_disk sample_env short_body sample_files empty_world)
     = Inl (RosterSizeViolation 4) \<and>
   teams (snd (registerTeam_disk sample_env short_body sample_files empty_world)) = [] \<and>
   map (\<lambda>t. length (players t))
     (teams (snd (registerTeam sample_env sample_body sample_files empty_world))) = [5]"
proof -
  let ?entries = "the (b_players short_body)"
  let ?C = "collectPlayersWithCloudinary sample_env sample_files (b_tier short_body = ''high_school'')
        (replace_non_alphanumeric (b_teamName short_body) @ ''_'' @ generateTeamId sample_env)
        ?entries 0 [] [] empty_world"
  let ?D = "collectPlayers sample_files ?entries 0 []"
  let ?R = "registerTeam sample_env short_body sample_files empty_world"
  have h: "\<not> missingRequiredFields short_body" "\<not> missingEmergencyContact short_body"
    "b_players short_body = Some ?entries"
    by code_simp+
  have i: "\<not> isl (fst ?C)" "\<not> isl ?D" "length (fst (projr (fst ?C))) = 4" "length (projr ?D) = 4"
    by code_simp+
  then have C: "?C = (Inr (fst (projr (fst ?C)), snd (projr (fst ?C))), snd ?C)"
    and D: "?D = Inr (projr ?D)"
    by (simp_all add: prod_eq_iff)
  note t = roster_size_enforced [OF h, of sample_env sample_files empty_world]
  from i have n: "length (fst (projr (fst ?C))) < 5 \<or> 10 < length (fst (projr (fst ?C)))"
    "length (projr ?D) < 5 \<or> 10 < length (projr ?D)"
    by simp_all
  from t C D n
  have "fst ?R = Inl (RosterSizeViolation (length (fst (projr (fst ?C)))))"
    "teams (snd ?R) = teams empty_world"
    "fst (registerTeam_disk sample_env short_body sample_files empty_world)
       = Inl (RosterSizeViolation (length (projr ?D)))"
    "teams (snd (registerTeam_disk sample_env short_body sample_files empty_world))
       = teams empty_world"
    by blast+
  with i have a: "fst ?R = Inl (RosterSizeViolation 4)" "teams (snd ?R) = teams empty_world"
    "fst (registerTeam_disk sample_env short_body sample_files empty_world)
       = Inl (RosterSizeViolation 4)"
    "teams (snd (registerTeam_disk sample_env short_body sample_files empty_world))
       = teams empty_world"
    by simp_all
  have rest: "snd ?R = empty_world" "teams empty_world = []"
    "map (\<lambda>t. length (players t))
     (teams (snd (registerTeam sample_env sample_body sample_files empty_world))) = [5]"
    by code_simp+
  with a show ?thesis by simp
qed

subsection \<open>Notifications\<close>

lemma cleanupCloudinaryImages_sendMail:
  "cleanupCloudinaryImages (e\<lparr>sendMail := m\<rparr>) ups w = cleanupCloudinaryImages e ups w"
  by (simp add: cleanupCloudinaryImages_def)

lemma collectPlayersWithCloudinary_sendMail:
  "collectPlayersWithCloudinary (e\<lparr>sendMail := m\<rparr>) fs rq tf entries i acc ups w =
   collectPlayersWithCloudinary e fs rq tf entries i acc ups w"
proof (induction entries arbitrary: i acc ups w rq)
  case Nil
  show ?case by simp
next
  case (Cons x entries)
  show ?case
  proof (cases x)
    case None
    then show ?thesis by simp
  next
    case (Some rp)
    then show ?thesis using Cons.IH
      by (simp add: cleanupCloudinaryImages_sendMail split: option.splits)
  qed
qed

lemma processPlayersDataWithCloudinary_sendMail:
  "processPlayersDataWithCloudinary (e\<lparr>sendMail := m\<rparr>) b fs tid w =
   processPlayersDataWithCloudinary e b fs tid w"
  by (simp add: processPlayersDataWithCloudinary_def cleanupCloudinaryImages_sendMail
        collectPlayersWithCloudinary_sendMail
      split: option.splits prod.splits sum.splits)

lemma builtTeam_sendMail:
  "calculatePlayerAges (e\<lparr>sendMail := m\<rparr>) t = calculatePlayerAges e t"
  "newTeam (e\<lparr>sendMail := m\<rparr>) b ec tid ps = newTeam e b ec tid ps"
  by (simp_all add: calculatePlayerAges_def newTeam_def registrationFeeFor_def)

lemma validatePlayerAgesForTier_sendMail:
  "validatePlayerAgesForTier (e\<lparr>sendMail := m\<rparr>) t = validatePlayerAgesForTier e t"
  by (simp add: validatePlayerAgesForTier_def)

lemma getPaymentInstructions_sendMail:
  "getPaymentInstructions (e\<lparr>sendMail := m\<rparr>) t = getPaymentInstructions e t"
  by (simp add: getPaymentInstructions_def checkInstructions_def zelleInstructions_def
        venmoInstructions_def amount_def)

lemma registerTeam_sendMail:
  assumes "registerTeam e b fs w = (Inr (tid, ins), w')"
  shows "\<exists>w''. registerTeam (e\<lparr>sendMail := m\<rparr>) b fs w = (Inr (tid, ins), w'') \<and>
           teams w'' = teams w' \<and> cloud w'' = cloud w' \<and> disk w'' = disk w'"
proof -
  let ?e = "e\<lparr>sendMail := m\<rparr>"
  from registerTeam_succeeded [OF assms] obtain ps ups w1 where
    nm: "\<not> missingRequiredFields b" "\<not> missingEmergencyContact b"
    and p: "processPlayersDataWithCloudinary e b fs (generateTeamId e) w = (Inr (ps, ups), w1)"
    by blast
  let ?t = "builtTeam e b ps"
  from assms
  have w': "w' = sendAdminNotificationEmail e ?t (sendTeamConfirmationEmail e ?t (save ?t w1))"
    and tid: "tid = teamId ?t" and ins: "ins = getPaymentInstructions e ?t"
    and c: "findOneResolves e" "findExistingTeam b w1 = None" "validatePlayerAgesForTier e ?t"
      "saveResolves e ?t"
    unfolding registerTeam_roster_built [OF nm p]
    by (simp_all split: if_splits)
  have p': "processPlayersDataWithCloudinary ?e b fs (generateTeamId ?e) w = (Inr (ps, ups), w1)"
    using p by (simp add: processPlayersDataWithCloudinary_sendMail)
  have "registerTeam ?e b fs w =
      (Inr (tid, ins),
       sendAdminNotificationEmail ?e ?t (sendTeamConfirmationEmail ?e ?t (save ?t w1)))"
    unfolding registerTeam_roster_built [OF nm p']
    using c tid ins
    by (simp add: builtTeam_sendMail validatePlayerAgesForTier_sendMail
          getPaymentInstructions_sendMail)
  then show ?thesis
    unfolding w' by (simp add: notifications_keep)
qed

lemma movePlayerFiles_sendMail:
  "movePlayerFiles (e\<lparr>sendMail := m\<rparr>) up todo moved w = movePlayerFiles e up todo moved w"
  by (induction todo arbitrary: moved w) (simp_all add: Let_def split: option.splits)

lemma updateFilePathsWithTeamId_sendMail:
  "updateFilePathsWithTeamId (e\<lparr>sendMail := m\<rparr>) t w = updateFilePathsWithTeamId e t w"
  by (simp add: updateFilePathsWithTeamId_def teamUploadPath_def movePlayerFiles_sendMail
      split: prod.splits)

lemma processPlayersData_sendMail:
  "processPlayersData (e\<lparr>sendMail := m\<rparr>) b fs w = processPlayersData e b fs w"
  by (simp add: processPlayersData_def cleanupUploadedFiles_def
      split: option.splits sum.splits)

lemma registerTeam_disk_sendMail:
  assumes "registerTeam_disk e b fs w = (Inr (tid, ins), w')"
  shows "\<exists>w''. registerTeam_disk (e\<lparr>sendMail := m\<rparr>) b fs w = (Inr (tid, ins), w'') \<and>
           teams w'' = teams w' \<and> cloud w'' = cloud w' \<and> disk w'' = disk w'"
proof -
  let ?e = "e\<lparr>sendMail := m\<rparr>"
  from registerTeam_disk_succeeded [OF assms] obtain ps where
    nm: "\<not> missingRequiredFields b" "\<not> missingEmergencyContact b"
    and p: "processPlayersData e b fs w = (Inr ps, w)"
    by blast
  let ?t = "builtTeam e b ps"
  obtain t' w3 where u: "updateFilePathsWithTeamId e ?t (save ?t w) = (t', w3)"
    by (cases "updateFilePathsWithTeamId e ?t (save ?t w)")
  from assms u
  have w': "w' = sendAdminNotificationEmail e t' (sendTeamConfirmationEmail e t' w3)"
    and tid: "tid = teamId t'" and ins: "ins = getPaymentInstructions e t'"
    and c: "findOneResolves e" "findExistingTeam b w = None" "validatePlayerAgesForTier e ?t"
      "saveResolves e ?t"
    unfolding registerTeam_disk_roster_built [OF nm p]
    by (simp_all split: if_splits)
  have p': "processPlayersData ?e b fs w = (Inr ps, w)"
    using p by (simp add: processPlayersData_sendMail)
  have "registerTeam_disk ?e b fs w =
      (Inr (tid, ins), sendAdminNotificationEmail ?e t' (sendTeamConfirmationEmail ?e t' w3))"
    unfolding registerTeam_disk_roster_built [OF nm p']
    using c tid ins u
    by (simp add: builtTeam_sendMail validatePlayerAgesForTier_sendMail
          getPaymentInstructions_sendMail updateFilePathsWithTeamId_sendMail)
  then show ?thesis
    unfolding w' by (simp add: notifications_keep)
qed

text \<open>
  C8. A submission that has persisted its Team answers with the team id and the payment
  instructions whatever becomes of the two notifications: with any other behaviour of the
  transporter (here \<open>m\<close>: which mails it accepts) the answer is the same, and so are the
  persisted Teams, which hold the new Team. Both controllers.
\<close>

theorem notification_failure_is_swallowed:
  "(registerTeam e b fs w = (Inr (tid, ins), w') \<longrightarrow>
      (\<exists>w''. registerTeam (e\<lparr>sendMail := m\<rparr>) b fs w = (Inr (tid, ins), w'') \<and>
             teams w'' = teams w' \<and> cloud w'' = cloud w' \<and> disk w'' = disk w') \<and>
      (\<exists>t. teams w' = teams w @ [t] \<and> teamId t = tid)) \<and>
   (registerTeam_disk e b fs w = (Inr (tid, ins), w') \<longrightarrow>
      (\<exists>w''. registerTeam_disk (e\<lparr>sendMail := m\<rparr>) b fs w = (Inr (tid, ins), w'') \<and>
             teams w'' = teams w' \<and> cloud w'' = cloud w' \<and> disk w'' = disk w') \<and>
      (\<exists>t. teams w' = teams w @ [t] \<and> teamId t = tid))"
proof -
  have 1: "\<exists>t. teams w' = teams w @ [t] \<and> teamId t = tid"
    if "registerTeam e b fs w = (Inr (tid, ins), w')"
    using registerTeam_succeeded [OF that] by (auto simp: builtTeam_fields)
  have 2: "\<exists>t. teams w' = teams w @ [t] \<and> teamId t = tid"
    if r: "registerTeam_disk e b fs w = (Inr (tid, ins), w')"
  proof -
    from registerTeam_disk_succeeded [OF r] obtain ps where
      nm: "\<not> missingRequiredFields b" "\<not> missingEmergencyContact b"
      and p: "processPlayersData e b fs w = (Inr ps, w)"
      by blast
    let ?t = "builtTeam e b ps"
    obtain t' w3 where u: "updateFilePathsWithTeamId e ?t (save ?t w) = (t', w3)"
      by (cases "updateFilePathsWithTeamId e ?t (save ?t w)")
    note uk = updateFilePathsWithTeamId_keeps [OF u]
    from r u
    have w': "w' = sendAdminNotificationEmail e t' (sendTeamConfirmationEmail e t' w3)"
      and tid: "tid = teamId t'"
      unfolding registerTeam_disk_roster_built [OF nm p]
      by (simp_all split: if_splits)
    from uk have "teams w' = teams w @ [?t] \<or> teams w' = teams w @ [t']"
      unfolding w' by (simp add: notifications_keep)
    with uk tid show ?thesis by auto
  qed
  from 1 2 registerTeam_sendMail [of e b fs w tid ins w' m]
    registerTeam_disk_sendMail [of e b fs w tid ins w' m]
  show ?thesis by blast
qed

theorem notification_failure_is_swallowed_witness:
  "fst (registerTeam mute_env sample_body sample_files empty_world)
     = fst (registerTeam sample_env sample_body sample_files empty_world) \<and>
   \<not> isl (fst (registerTeam mute_env sample_body sample_files empty_world)) \<and>
   teams (snd (registerTeam mute_env sample_body sample_files empty_world))
     = teams (snd (registerTeam sample_env sample_body sample_files empty_world)) \<and>
   outbox (snd (registerTeam sample_env sample_body sample_files empty_world))
     = [''coach@example.org'', ''admin@alhudaspark.org''] \<and>
   outbox (snd (registerTeam mute_env sample_body sample_files empty_world)) = [] \<and>
   fst (registerTeam_disk mute_env sample_body sample_files empty_world)
     = fst (registerTeam_disk sample_env sample_body sample_files empty_world) \<and>
   \<not> isl (fst (registerTeam_disk mute_env sample_body sample_files empty_world)) \<and>
   teams (snd (registerTeam_disk mute_env sample_body sample_files empty_world))
     = teams (snd (registerTeam_disk sample_env sample_body sample_files empty_world))"
proof -
  let ?R = "registerTeam sample_env sample_body sample_files empty_world"
  let ?D = "registerTeam_disk sample_env sample_body sample_files empty_world"
  let ?R' = "registerTeam (sample_env\<lparr>sendMail := (\<lambda>_. False)\<rparr>) sample_body sample_files empty_world"
  let ?D' = "registerTeam_disk (sample_env\<lparr>sendMail := (\<lambda>_. False)\<rparr>) sample_body sample_files empty_world"
  have i: "\<not> isl (fst ?R)" "\<not> isl (fst ?D)"
    "outbox (snd ?R) = [''coach@example.org'', ''admin@alhudaspark.org'']"
    "outbox (snd ?R') = []"
    by code_simp+
  then have R: "?R = (Inr (fst (projr (fst ?R)), snd (projr (fst ?R))), snd ?R)"
    and D: "?D = (Inr (fst (projr (fst ?D)), snd (projr (fst ?D))), snd ?D)"
    by (simp_all add: prod_eq_iff)
  note t1 = notification_failure_is_swallowed [where e = sample_env and b = sample_body
      and fs = sample_files and w = empty_world and m = "\<lambda>_. False"
      and tid = "fst (projr (fst ?R))" and ins = "snd (projr (fst ?R))" and w' = "snd ?R"]
  note t2 = notification_failure_is_swallowed [where e = sample_env and b = sample_body
      and fs = sample_files and w = empty_world and m = "\<lambda>_. False"
      and tid = "fst (projr (fst ?D))" and ins = "snd (projr (fst ?D))" and w' = "snd ?D"]
  from t1 R obtain w1 where
    a: "?R' = (Inr (fst (projr (fst ?R)), snd (projr (fst ?R))), w1)" "teams w1 = teams (snd ?R)"
    by blast
  from t2 D obtain w2 where
    b: "?D' = (Inr (fst (projr (fst ?D)), snd (projr (fst ?D))), w2)" "teams w2 = teams (snd ?D)"
    by blast
  from a R have a': "fst ?R' = fst ?R" "teams (snd ?R') = teams (snd ?R)" "\<not> isl (fst ?R')"
    by (metis fst_conv, metis snd_conv, metis fst_conv sum.disc(2))
  from b D have b': "fst ?D' = fst ?D" "teams (snd ?D') = teams (snd ?D)" "\<not> isl (fst ?D')"
    by (metis fst_conv, metis snd_conv, metis fst_conv sum.disc(2))
  from a' b' i show ?thesis
    unfolding mute_env_def by simp
qed

subsection \<open>Payment instructions\<close>

text \<open>
  C9. \<^verbatim>\<open>getPaymentInstructions\<close> is a function of the team and of the process environment
  alone (it takes no world): two calls whose teams agree on the payment method, the fee,
  the team id and the team name, under configurations that agree on the three addresses
  and on the printing of the fee, return the same payload. For Zelle, 350,
  \<^verbatim>\<open>TEAM-ABC123\<close> and Falcons the payload is the one of the witness.
\<close>

theorem payment_instructions_determined:
  assumes "paymentMethod t1 = paymentMethod t2" and "registrationFee t1 = registrationFee t2"
    and "teamId t1 = teamId t2" and "teamName t1 = teamName t2"
    and "MAILING_ADDRESS e1 = MAILING_ADDRESS e2" and "ZELLE_EMAIL e1 = ZELLE_EMAIL e2"
    and "VENMO_USERNAME e1 = VENMO_USERNAME e2"
    and "toLocaleString e1 (registrationFee t1) = toLocaleString e2 (registrationFee t1)"
  shows "getPaymentInstructions e1 t1 = getPaymentInstructions e2 t2"
  using assms
  by (simp add: getPaymentInstructions_def checkInstructions_def zelleInstructions_def
        venmoInstructions_def amount_def)

theorem payment_instructions_determined_witness:
  "getPaymentInstructions sample_env (builtTeam sample_env sample_body [])
     = getPaymentInstructions mute_env
         (last (teams (snd (registerTeam sample_env sample_body sample_files empty_world)))) \<and>
   getPaymentInstructions sample_env (builtTeam sample_env sample_body [])
     = Some \<lparr>title = ''Payment by Zelle'',
             text_of = ''Please send your Zelle payment using the following information:'',
             details =
               template_line @ ''<strong>Recipient Email:</strong> finance@alhudaspark.org<br>'' @
               template_line @ ''<strong>Recipient Name:</strong> Alhuda SPARK<br>'' @
               template_line @ ''<strong>Amount:</strong> $350<br>'' @
               template_line @ ''<strong>Memo:</strong> TEAM-ABC123'' @
               template_end\<rparr>"
proof -
  let ?t1 = "builtTeam sample_env sample_body []"
  let ?t2 = "last (teams (snd (registerTeam sample_env sample_body sample_files empty_world)))"
  have h: "paymentMethod ?t1 = paymentMethod ?t2" "registrationFee ?t1 = registrationFee ?t2"
    "teamId ?t1 = teamId ?t2" "teamName ?t1 = teamName ?t2"
    "MAILING_ADDRESS sample_env = MAILING_ADDRESS mute_env"
    "ZELLE_EMAIL sample_env = ZELLE_EMAIL mute_env"
    "VENMO_USERNAME sample_env = VENMO_USERNAME mute_env"
    "toLocaleString sample_env (registrationFee ?t1) = toLocaleString mute_env (registrationFee ?t1)"
    by code_simp+
  have v: "getPaymentInstructions sample_env ?t1
     = Some \<lparr>title = ''Payment by Zelle'',
             text_of = ''Please send your Zelle payment using the following information:'',
             details =
               template_line @ ''<strong>Recipient Email:</strong> finance@alhudaspark.org<br>'' @
               template_line @ ''<strong>Recipient Name:</strong> Alhuda SPARK<br>'' @
               template_line @ ''<strong>Amount:</strong> $350<br>'' @
               template_line @ ''<strong>Memo:</strong> TEAM-ABC123'' @
               template_end\<rparr>"
    by code_simp
  from payment_instructions_determined [OF h] v show ?thesis by simp
qed

end
